theory Spec2Isabelle
  imports Complex_Main "HOL-Library.AList"
begin

section \<open>Errors and dense arrays\<close>

text \<open>
  Python exceptions are values of \<open>error\<close>. \<open>OutOfBoundsRead\<close> and \<open>OutOfBoundsWrite\<close>
  stand for a read and for a write outside a buffer in a function compiled with
  \<^verbatim>\<open>@cython.boundscheck(False)\<close>: no exception is raised there, the behaviour of the
  compiled code is undefined, and the model stops at the access.
\<close>

datatype error = ValueError | TypeError | AttributeError | IndexError | ZeroDivisionError
  | OutOfBoundsRead | OutOfBoundsWrite

text \<open>
  A two-dimensional array of doubles (a numpy array or a typed memoryview on it): its shape
  and its cells. Doubles are modelled as reals: rounding, infinities and NaN are outside the
  model. Arrays are mutated in place by the source; the model passes the new array on.
\<close>

record mat =
  nrows :: nat
  ncols :: nat
  cell :: "nat \<Rightarrow> nat \<Rightarrow> real"

definition mput :: "mat \<Rightarrow> nat \<Rightarrow> nat \<Rightarrow> real \<Rightarrow> mat" where
  \<comment> \<open>\<^verbatim>\<open>m[r, c] = v\<close>\<close>
  "mput m r c v = m\<lparr>cell := (cell m)(r := (cell m r)(c := v))\<rparr>"

definition np_zeros :: "nat \<Rightarrow> nat \<Rightarrow> mat" where
  \<comment> \<open>\<^verbatim>\<open>np.zeros(shape=(r, c))\<close>\<close>
  "np_zeros r c = \<lparr>nrows = r, ncols = c, cell = (\<lambda>_ _. 0)\<rparr>"

definition row :: "mat \<Rightarrow> nat \<Rightarrow> real list" where
  \<comment> \<open>\<^verbatim>\<open>m[r]\<close>, the entries of row \<open>r\<close>\<close>
  "row m r = map (cell m r) [0..<ncols m]"

section \<open>The pairwise ranking model: \<^verbatim>\<open>BprAdamUpdater\<close>\<close>

definition sigmoid :: "real \<Rightarrow> real" where
  "sigmoid x = 1 / (1 + exp (- x))"

definition square :: "real \<Rightarrow> real" where
  "square x = x * x"

record BprAdamUpdater =
  W :: mat
  H :: mat
  M_W :: mat
  V_W :: mat
  M_H :: mat
  V_H :: mat
  alpha :: real
  beta1 :: real
  beta2 :: real
  epsilon :: real
  weight_decay :: real

definition BprAdamUpdater_init :: "mat \<Rightarrow> mat \<Rightarrow> real \<Rightarrow> real \<Rightarrow> BprAdamUpdater" where
  \<comment> \<open>\<^verbatim>\<open>BprAdamUpdater.__init__(W, H, learning_rate, weight_decay)\<close>\<close>
  "BprAdamUpdater_init w h learning_rate wd =
     \<lparr>W = w, H = h,
      M_W = np_zeros (nrows w) (ncols w),
      V_W = np_zeros (nrows w) (ncols w),
      M_H = np_zeros (nrows h) (ncols h),
      V_H = np_zeros (nrows h) (ncols h),
      alpha = learning_rate, beta1 = 0.9, beta2 = 0.999, epsilon = 1 / 10 ^ 8,
      weight_decay = wd\<rparr>"

text \<open>
  The first loop of \<^verbatim>\<open>loss\<close>: one pass over the \<open>K = W.shape[1]\<close> coordinates that
  accumulates \<^verbatim>\<open>x_uij\<close> and \<^verbatim>\<open>l2_norm\<close>.
\<close>

definition forward_step ::
  "BprAdamUpdater \<Rightarrow> nat \<Rightarrow> nat \<Rightarrow> nat \<Rightarrow> nat \<Rightarrow> real \<times> real \<Rightarrow> real \<times> real" where
  "forward_step s u i j k acc =
     (case acc of (x_uij, l2_norm) \<Rightarrow>
        (x_uij + cell (W s) u k * (cell (H s) i k - cell (H s) j k),
         l2_norm + (square (cell (W s) u k) + square (cell (H s) i k)
                    + square (cell (H s) j k))))"

text \<open>
  The assignments of the second loop, one definition for each shape of statement. Each
  reads the arrays as the statements before it left them.
\<close>

definition assign_M_W :: "nat \<Rightarrow> nat \<Rightarrow> real \<Rightarrow> BprAdamUpdater \<Rightarrow> BprAdamUpdater" where
  \<comment> \<open>\<^verbatim>\<open>self.M_W[u, k] = self.beta1 * self.M_W[u, k] + (1 - self.beta1) * grad\<close>\<close>
  "assign_M_W u k grad s =
     s\<lparr>M_W := mput (M_W s) u k (beta1 s * cell (M_W s) u k + (1 - beta1 s) * grad)\<rparr>"

definition assign_M_H :: "nat \<Rightarrow> nat \<Rightarrow> real \<Rightarrow> BprAdamUpdater \<Rightarrow> BprAdamUpdater" where
  \<comment> \<open>\<^verbatim>\<open>self.M_H[i, k] = self.beta1 * self.M_H[i, k] + (1 - self.beta1) * grad\<close>\<close>
  "assign_M_H i k grad s =
     s\<lparr>M_H := mput (M_H s) i k (beta1 s * cell (M_H s) i k + (1 - beta1 s) * grad)\<rparr>"

definition assign_V_W :: "nat \<Rightarrow> nat \<Rightarrow> real \<Rightarrow> BprAdamUpdater \<Rightarrow> BprAdamUpdater" where
  \<comment> \<open>\<^verbatim>\<open>self.V_W[u, k] = self.beta2 * self.V_W[u, k] + (1 - self.beta2) * square(grad)\<close>\<close>
  "assign_V_W u k grad s =
     s\<lparr>V_W := mput (V_W s) u k (beta2 s * cell (V_W s) u k + (1 - beta2 s) * square grad)\<rparr>"

definition assign_V_H :: "nat \<Rightarrow> nat \<Rightarrow> real \<Rightarrow> BprAdamUpdater \<Rightarrow> BprAdamUpdater" where
  \<comment> \<open>\<^verbatim>\<open>self.V_H[i, k] = self.beta2 * self.V_H[i, k] + (1 - self.beta2) * square(grad)\<close>\<close>
  "assign_V_H i k grad s =
     s\<lparr>V_H := mput (V_H s) i k (beta2 s * cell (V_H s) i k + (1 - beta2 s) * square grad)\<rparr>"

definition assign_W :: "nat \<Rightarrow> nat \<Rightarrow> BprAdamUpdater \<Rightarrow> BprAdamUpdater" where
  \<comment> \<open>\<^verbatim>\<open>self.W[u, k] -= self.alpha * (self.M_W[u, k] / (1 - self.beta1))
        / (sqrt(self.V_W[u, k] / (1 - self.beta2)) + self.epsilon)\<close>\<close>
  "assign_W u k s =
     s\<lparr>W := mput (W s) u k
            (cell (W s) u k
             - alpha s * (cell (M_W s) u k / (1 - beta1 s))
               / (sqrt (cell (V_W s) u k / (1 - beta2 s)) + epsilon s))\<rparr>"

definition assign_H :: "nat \<Rightarrow> nat \<Rightarrow> BprAdamUpdater \<Rightarrow> BprAdamUpdater" where
  \<comment> \<open>\<^verbatim>\<open>self.H[i, k] -= self.alpha * (self.M_H[i, k] / (1 - self.beta1))
        / (sqrt(self.V_H[i, k] / (1 - self.beta2)) + self.epsilon)\<close>\<close>
  "assign_H i k s =
     s\<lparr>H := mput (H s) i k
            (cell (H s) i k
             - alpha s * (cell (M_H s) i k / (1 - beta1 s))
               / (sqrt (cell (V_H s) i k / (1 - beta2 s)) + epsilon s))\<rparr>"

text \<open>
  The body of the second loop, for coordinate \<open>k\<close>: the three gradients are read first,
  then the nine assignments follow in the source's order (the first one applied is the
  innermost), so that \<open>i = j\<close> aliases as it does in the source.
\<close>

definition update_step ::
  "nat \<Rightarrow> nat \<Rightarrow> nat \<Rightarrow> real \<Rightarrow> nat \<Rightarrow> BprAdamUpdater \<Rightarrow> BprAdamUpdater" where
  "update_step u i j x_uij k s =
     (let grad_wuk = - (x_uij * (cell (H s) i k - cell (H s) j k)
                        - weight_decay s * cell (W s) u k);
          grad_hik = - (x_uij * cell (W s) u k - weight_decay s * cell (H s) i k);
          grad_hjk = - (x_uij * (- cell (W s) u k) - weight_decay s * cell (H s) j k)
      in assign_H j k (assign_H i k (assign_W u k
          (assign_V_H j k grad_hjk (assign_V_H i k grad_hik (assign_V_W u k grad_wuk
            (assign_M_H j k grad_hjk (assign_M_H i k grad_hik (assign_M_W u k grad_wuk
              s)))))))))"

text \<open>
  \<^verbatim>\<open>loss(u, i, j, update)\<close> returns the updater as the call leaves it, and the loss.
  The indices are those of the caller: the source reads and writes the arrays unchecked.
\<close>

definition loss ::
  "BprAdamUpdater \<Rightarrow> nat \<Rightarrow> nat \<Rightarrow> nat \<Rightarrow> bool \<Rightarrow> BprAdamUpdater \<times> real" where
  "loss s u i j update =
     (let K = ncols (W s);
          (x_uij, l2_norm) = fold (forward_step s u i j) [0..<K] (0, 0);
          l = - ln (sigmoid x_uij) + weight_decay s * l2_norm
      in if \<not> update then (s, l)
         else let x_uij = 1 / (1 + exp x_uij)
              in (fold (update_step u i j x_uij) [0..<K] s, l))"

text \<open>The loss as the specification writes it, on the rows as vectors.\<close>

definition dot :: "real list \<Rightarrow> real list \<Rightarrow> real" where
  "dot xs ys = sum_list (map2 (*) xs ys)"

definition sqnorm :: "real list \<Rightarrow> real" where
  "sqnorm xs = sum_list (map (\<lambda>x. x\<^sup>2) xs)"

definition bpr_loss_spec :: "mat \<Rightarrow> mat \<Rightarrow> real \<Rightarrow> nat \<Rightarrow> nat \<Rightarrow> nat \<Rightarrow> real" where
  "bpr_loss_spec w h wd u i j =
     - ln (sigmoid (dot (row w u) (map2 (-) (row h i) (row h j))))
     + wd * (sqnorm (row w u) + sqnorm (row h i) + sqnorm (row h j))"

section \<open>Training the ranking model: \<^verbatim>\<open>fit_bpr\<close>\<close>

definition ebind :: "error + 'a \<Rightarrow> ('a \<Rightarrow> error + 'b) \<Rightarrow> error + 'b" where
  \<comment> \<open>sequencing: an exception of the first statement skips the rest\<close>
  "ebind r f = (case r of Inl e \<Rightarrow> Inl e | Inr x \<Rightarrow> f x)"

subsection \<open>Negative sampling\<close>

definition candidates :: "mat \<Rightarrow> nat \<Rightarrow> nat list" where
  \<comment> \<open>\<^verbatim>\<open>(X[u]-1).nonzero()[0]\<close>: the column indices, ascending, where \<open>X[u] - 1\<close> is not zero\<close>
  "candidates X u = filter (\<lambda>j. cell X u j - 1 \<noteq> 0) [0..<ncols X]"

text \<open>
  \<^verbatim>\<open>np.random.choice(a, n)\<close> on a one-dimensional array \<open>a\<close>: \<open>n\<close> entries of \<open>a\<close>, each
  at a position drawn by the generator in \<open>range(len(a))\<close>; numpy raises ValueError when \<open>a\<close>
  is empty, unless no sample is asked for. The generator is the stream \<open>rng\<close> of its raw
  draws, read from position \<open>pos\<close> on and reduced to the range.
\<close>

definition random_choice :: "(nat \<Rightarrow> nat) \<Rightarrow> nat \<Rightarrow> nat list \<Rightarrow> nat \<Rightarrow> error + nat list" where
  "random_choice rng pos a n =
     (if a = [] \<and> n \<noteq> 0 then Inl ValueError
      else Inr (map (\<lambda>t. a ! (rng (pos + t) mod length a)) [0..<n]))"

text \<open>
  The loop \<^verbatim>\<open>for l in range(N)\<close> that fills \<^verbatim>\<open>negatives[l][:]\<close>, one row of \<open>iterations\<close>
  item indices for each sample. \<^verbatim>\<open>X[u]\<close> is a checked numpy row access. (The conversion
  \<^verbatim>\<open>astype(np.int32)\<close> is the identity on column indices below \<open>2^31\<close>.)
\<close>

fun sample_negatives ::
  "(nat \<Rightarrow> nat) \<Rightarrow> mat \<Rightarrow> nat \<Rightarrow> nat \<Rightarrow> nat list \<Rightarrow> error + nat list list" where
  "sample_negatives rng X iterations pos [] = Inr []"
| "sample_negatives rng X iterations pos (u # us) =
     (if nrows X \<le> u then Inl IndexError
      else ebind (random_choice rng pos (candidates X u) iterations) (\<lambda>negative_samples.
           ebind (sample_negatives rng X iterations (pos + iterations) us) (\<lambda>rest.
           Inr (negative_samples # rest))))"

subsection \<open>One pass over the samples\<close>

text \<open>
  \<^verbatim>\<open>for l in prange(n): loss[l] = updater.loss(us[l], ps[l], negs[l, iteration], update)\<close>,
  run in index order (the interleaving of several threads is outside the model). The
  function is compiled without bounds checks. The call reads \<open>us\<close>, \<open>ps\<close>, \<open>negs\<close> and the
  factor matrices first: an index outside them ends the model with \<open>OutOfBoundsRead\<close>. The
  assignment to \<^verbatim>\<open>loss[l]\<close> comes last: an index outside the loss buffer ends the model with
  \<open>OutOfBoundsWrite\<close>.
\<close>

fun run_pass ::
  "bool \<Rightarrow> nat list \<Rightarrow> nat list \<Rightarrow> nat list list \<Rightarrow> nat \<Rightarrow> nat list
   \<Rightarrow> BprAdamUpdater \<times> real list \<Rightarrow> error + BprAdamUpdater \<times> real list" where
  "run_pass update us ps negs iteration [] st = Inr st"
| "run_pass update us ps negs iteration (l # ls) st =
     (case st of (s, loss_buf) \<Rightarrow>
        if l < length us \<and> l < length ps \<and> l < length negs \<and> iteration < length (negs ! l)
           \<and> us ! l < nrows (W s) \<and> ps ! l < nrows (H s) \<and> negs ! l ! iteration < nrows (H s)
           \<and> ncols (W s) \<le> ncols (H s)
        then (case loss s (us ! l) (ps ! l) (negs ! l ! iteration) update of (s', v) \<Rightarrow>
                if l < length loss_buf
                then run_pass update us ps negs iteration ls (s', loss_buf[l := v])
                else Inl OutOfBoundsWrite)
        else Inl OutOfBoundsRead)"

definition mean_loss :: "real list \<Rightarrow> nat \<Rightarrow> error + real" where
  \<comment> \<open>\<^verbatim>\<open>m = 0.0; for l in range(n): m += loss[l]\<close> and then \<^verbatim>\<open>m /= n\<close>, which Cython
      compiles (without \<^verbatim>\<open>cdivision\<close>) to a division that raises on a zero divisor\<close>
  "mean_loss loss_buf n =
     (if length loss_buf < n then Inl OutOfBoundsRead
      else let m = fold (\<lambda>l m. m + loss_buf ! l) [0..<n] 0
           in if n = 0 then Inl ZeroDivisionError else Inr (m / real n))"

subsection \<open>The evaluator\<close>

definition np_dot_T :: "mat \<Rightarrow> mat \<Rightarrow> error + mat" where
  \<comment> \<open>\<^verbatim>\<open>np.dot(np.array(W), np.array(H).T)\<close>\<close>
  "np_dot_T w h =
     (if ncols w \<noteq> ncols h then Inl ValueError
      else Inr \<lparr>nrows = nrows w, ncols = nrows h,
                cell = (\<lambda>r c. \<Sum>k<ncols w. cell w r k * cell h c k)\<rparr>)"

text \<open>
  \<^verbatim>\<open>argsort\<close> of one row is numpy's: it is the parameter \<open>asort\<close> of what follows. It returns
  the positions of the row ordered by ascending score; numpy's default sort promises
  nothing on the order of positions with equal scores.
\<close>

definition is_argsort :: "(real list \<Rightarrow> nat list) \<Rightarrow> real list \<Rightarrow> bool" where
  \<comment> \<open>\<open>asort xs\<close> holds every position of \<open>xs\<close> once, by ascending score\<close>
  "is_argsort asort xs \<longleftrightarrow>
     distinct (asort xs) \<and> set (asort xs) = set [0..<length xs]
     \<and> sorted (map (\<lambda>i. xs ! i) (asort xs))"

definition ties_ascending :: "(real list \<Rightarrow> nat list) \<Rightarrow> real list \<Rightarrow> bool" where
  \<comment> \<open>positions with equal scores come in ascending order, as a stable sort leaves them\<close>
  "ties_ascending asort xs \<longleftrightarrow>
     (\<forall>q<length (asort xs). \<forall>p<q.
        xs ! (asort xs ! p) = xs ! (asort xs ! q) \<longrightarrow> asort xs ! p < asort xs ! q)"

definition argsorted_scores :: "(real list \<Rightarrow> nat list) \<Rightarrow> mat \<Rightarrow> nat list list" where
  \<comment> \<open>\<^verbatim>\<open>scores.argsort(axis=1)[:,::-1][:,:10]\<close>\<close>
  "argsorted_scores asort scores =
     map (\<lambda>r. take 10 (rev (asort (row scores r)))) [0..<nrows scores]"

text \<open>
  The three metrics read \<^verbatim>\<open>argsorted_scores[i, j]\<close> and \<^verbatim>\<open>X[i, argsorted_scores[i, j]]\<close>
  without bounds checks, for every \<open>j\<close> below \<open>k\<close>.
\<close>

definition top_entry :: "nat list list \<Rightarrow> mat \<Rightarrow> nat \<Rightarrow> nat \<Rightarrow> error + real" where
  \<comment> \<open>\<^verbatim>\<open>X[i, argsorted_scores[i, j]]\<close>\<close>
  "top_entry a X i j =
     (if i < length a \<and> j < length (a ! i) \<and> i < nrows X \<and> a ! i ! j < ncols X
      then Inr (cell X i (a ! i ! j)) else Inl OutOfBoundsRead)"

fun emap :: "('a \<Rightarrow> error + 'b) \<Rightarrow> 'a list \<Rightarrow> error + 'b list" where
  \<comment> \<open>one loop iteration for each element, in order, up to the first that fails\<close>
  "emap f [] = Inr []"
| "emap f (x # xs) = ebind (f x) (\<lambda>y. ebind (emap f xs) (\<lambda>ys. Inr (y # ys)))"

definition recall_row :: "nat list list \<Rightarrow> mat \<Rightarrow> nat \<Rightarrow> nat \<Rightarrow> error + real" where
  \<comment> \<open>the body of the loop of \<^verbatim>\<open>recall\<close> for row \<open>i\<close>; \<^verbatim>\<open>_sum[i]\<close> is the sum of the row\<close>
  "recall_row a X k i =
     (let s = sum_list (row X i)
      in if s = 0 then Inr 0
         else ebind (emap (top_entry a X i) [0..<k]) (\<lambda>vs. Inr (sum_list vs / s)))"

definition ndcg_row :: "nat list list \<Rightarrow> mat \<Rightarrow> nat \<Rightarrow> nat \<Rightarrow> error + real" where
  \<comment> \<open>the body of the loop of \<^verbatim>\<open>ndcg\<close> for row \<open>i\<close>; \<^verbatim>\<open><int>min(_sum[i], k)\<close> truncates\<close>
  "ndcg_row a X k i =
     (let s = sum_list (row X i)
      in if s = 0 then Inr 0
         else
           let tmp = 1 + sum_list (map (\<lambda>j. 1 / log 2 (real (j + 1)))
                                     [1..<nat \<lfloor>min s (real k)\<rfloor>])
           in ebind (top_entry a X i 0) (\<lambda>first.
              ebind (emap (\<lambda>j. ebind (top_entry a X i j)
                                  (\<lambda>v. Inr (v / log 2 (real (j + 1))))) [1..<k]) (\<lambda>vs.
              Inr ((first + sum_list vs) / tmp))))"

definition ap_step :: "real list \<Rightarrow> nat \<Rightarrow> real \<times> real \<Rightarrow> real \<times> real" where
  \<comment> \<open>\<^verbatim>\<open>if rating[i] == 1.0: counter[i] += 1.0; ret[i] += counter[i] / (j + 1)\<close>\<close>
  "ap_step ratings j acc =
     (case acc of (counter, ret) \<Rightarrow>
        if ratings ! j = 1 then (counter + 1, ret + (counter + 1) / real (j + 1))
        else (counter, ret))"

definition ap_row :: "nat list list \<Rightarrow> mat \<Rightarrow> nat \<Rightarrow> nat \<Rightarrow> error + real" where
  \<comment> \<open>the body of the loop of \<^verbatim>\<open>ap\<close> for row \<open>i\<close>\<close>
  "ap_row a X k i =
     ebind (emap (top_entry a X i) [0..<k]) (\<lambda>ratings.
       case fold (ap_step ratings) [0..<k] (0, 0) of (counter, ret) \<Rightarrow>
         Inr (if counter = 0 then 0 else ret / counter))"

definition np_mean :: "real list \<Rightarrow> real" where
  \<comment> \<open>\<^verbatim>\<open>ret.mean()\<close> (of an empty array numpy makes NaN, which the model does not have)\<close>
  "np_mean xs = sum_list xs / real (length xs)"

type_synonym metrics = "(string \<times> real) list"

text \<open>
  \<^verbatim>\<open>evaluate(W, H, X, stores)\<close>: the three metrics with \<open>k = 10\<close>, each over the rows
  \<^verbatim>\<open>range(X.shape[0])\<close> of the test matrix, in the source's order.
\<close>

definition evaluate ::
  "(real list \<Rightarrow> nat list) \<Rightarrow> mat \<Rightarrow> mat \<Rightarrow> mat \<Rightarrow> metrics \<Rightarrow> error + metrics" where
  "evaluate asort w h X stores =
     ebind (np_dot_T w h) (\<lambda>scores.
       let a = argsorted_scores asort scores in
       ebind (emap (recall_row a X 10) [0..<nrows X]) (\<lambda>recalls.
       let stores = AList.update ''Reacall@10'' (np_mean recalls) stores in
       ebind (emap (ndcg_row a X 10) [0..<nrows X]) (\<lambda>ndcgs.
       let stores = AList.update ''nDCG@10'' (np_mean ndcgs) stores in
       ebind (emap (ap_row a X 10) [0..<nrows X]) (\<lambda>aps.
       Inr (AList.update ''MAP@10'' (np_mean aps) stores)))))"

subsection \<open>The epochs\<close>

record bpr_state =
  updater :: BprAdamUpdater
  loss_arr :: "real list"
  metrics :: metrics
  history :: "metrics list"

text \<open>
  The validation set, when there is one: \<^verbatim>\<open>users_valid\<close>, \<^verbatim>\<open>positives_valid\<close> and the
  rows \<^verbatim>\<open>negatives_valid\<close> drawn for it.
\<close>

type_synonym valid_set = "nat list \<times> nat list \<times> nat list list"

definition epoch ::
  "(real list \<Rightarrow> nat list) \<Rightarrow> nat list \<Rightarrow> nat list \<Rightarrow> nat list list
   \<Rightarrow> valid_set option \<Rightarrow> mat option \<Rightarrow> nat \<Rightarrow> bpr_state \<Rightarrow> error + bpr_state" where
  "epoch asort users positives negatives valid X_test iteration st =
     (let N = length users in
      ebind (run_pass True users positives negatives iteration [0..<N]
               (updater st, loss_arr st)) (\<lambda>(s, buf).
      ebind (mean_loss buf N) (\<lambda>m.
      let ms = AList.update ''loss'' m (metrics st) in
      ebind (case valid of
               None \<Rightarrow> Inr (s, buf, ms)
             | Some (users_valid, positives_valid, negatives_valid) \<Rightarrow>
                 ebind (run_pass False users_valid positives_valid negatives_valid iteration
                          [0..<length users_valid] (s, buf)) (\<lambda>(s, buf).
                 ebind (mean_loss buf (length users_valid)) (\<lambda>vm.
                 Inr (s, buf, AList.update ''val_loss'' vm ms)))) (\<lambda>(s, buf, ms).
      ebind (case X_test of
               None \<Rightarrow> Inr ms
             | Some Xt \<Rightarrow> evaluate asort (W s) (H s) Xt ms) (\<lambda>ms.
      Inr \<lparr>updater = s, loss_arr = buf, metrics = ms, history = history st @ [ms]\<rparr>)))))"

fun epochs ::
  "(real list \<Rightarrow> nat list) \<Rightarrow> nat list \<Rightarrow> nat list \<Rightarrow> nat list list
   \<Rightarrow> valid_set option \<Rightarrow> mat option \<Rightarrow> nat list \<Rightarrow> bpr_state \<Rightarrow> error + bpr_state" where
  "epochs asort users positives negatives valid X_test [] st = Inr st"
| "epochs asort users positives negatives valid X_test (iteration # its) st =
     ebind (epoch asort users positives negatives valid X_test iteration st)
       (epochs asort users positives negatives valid X_test its)"

text \<open>
  \<^verbatim>\<open>fit_bpr\<close>. \<open>valid\<close> holds \<^verbatim>\<open>(users_valid, positives_valid, X_valid)\<close> when \<^verbatim>\<open>X_valid\<close> is
  not None. \<^verbatim>\<open>np.zeros((N, iterations))\<close> raises ValueError for a negative dimension.
  \<^verbatim>\<open>num_threads\<close> and \<^verbatim>\<open>verbose\<close> only steer the thread pool and the progress bar. \<open>rng\<close>
  and \<open>asort\<close> are numpy's generator and numpy's \<^verbatim>\<open>argsort\<close>.
\<close>

definition fit_bpr ::
  "(nat \<Rightarrow> nat) \<Rightarrow> (real list \<Rightarrow> nat list)
   \<Rightarrow> nat list \<Rightarrow> nat list \<Rightarrow> mat \<Rightarrow> (nat list \<times> nat list \<times> mat) option \<Rightarrow> mat option
   \<Rightarrow> mat \<Rightarrow> mat \<Rightarrow> int \<Rightarrow> real \<Rightarrow> real \<Rightarrow> error + metrics list" where
  "fit_bpr rng asort users positives X valid X_test w h num_iterations learning_rate wd =
     (if num_iterations < 0 then Inl ValueError
      else
        let iterations = nat num_iterations;
            N = length users;
            loss0 = replicate N 0;
            upd = BprAdamUpdater_init w h learning_rate wd
        in
        ebind (sample_negatives rng X iterations 0 users) (\<lambda>negatives.
        ebind (case valid of
                 None \<Rightarrow> Inr None
               | Some (users_valid, positives_valid, X_valid) \<Rightarrow>
                   ebind (sample_negatives rng X_valid iterations (N * iterations) users_valid)
                     (\<lambda>negatives_valid.
                        Inr (Some (users_valid, positives_valid, negatives_valid))))
          (\<lambda>valid'.
        ebind (epochs asort users positives negatives valid' X_test [0..<iterations]
                 \<lparr>updater = upd, loss_arr = loss0, metrics = [], history = []\<rparr>) (\<lambda>st.
        Inr (history st)))))"

section \<open>The co-occurrence model: \<^verbatim>\<open>GloVe.fit\<close> and \<^verbatim>\<open>fit_glove\<close>\<close>

subsection \<open>The argument \<open>X\<close> and what lies outside the source files\<close>

text \<open>
  \<open>X\<close> is any Python object. The model tells apart None, a dense two-dimensional numpy
  array, a scipy sparse matrix of some format, and an object of another type that has no
  \<^verbatim>\<open>shape\<close> (a list, say). A sparse matrix is given by its format, the type of its values
  (64-bit floats, or another numpy type such as an integer type) and its entries; it stores
  exactly the nonzero ones.
\<close>

datatype sparse_format = lil_matrix | csr_matrix | csc_matrix | coo_matrix

datatype dtype = float64 | other_dtype

datatype pyobject = PyNone | ndarray mat | sparse sparse_format dtype mat | PyOther

text \<open>
  The attribute \<^verbatim>\<open>X.data\<close>: a one-dimensional array of doubles, a one-dimensional array of
  another type (of Python lists for the lil format), or the buffer of a dense array.
\<close>

datatype pydata = DoubleArray "real list" | OtherArray | MemoryView


record glove_params =
  central_W :: mat
  central_bias :: "real list"
  context_W :: mat
  context_bias :: "real list"

text \<open>
  What \<^verbatim>\<open>fit\<close> uses and the source files do not hold: the random generator behind
  \<^verbatim>\<open>np.random.uniform\<close> (\<open>rnd c i j\<close> is the draw of call \<open>c\<close> for cell \<open>(i, j)\<close>), the host's
  core count (\<^verbatim>\<open>cpucount()\<close> of \<^verbatim>\<open>util.h\<close>, \<^verbatim>\<open>multiprocessing.cpu_count()\<close>),
  \<^verbatim>\<open>sklearn.utils.shuffle\<close>, and the classes \<^verbatim>\<open>GloVeModel\<close> and \<^verbatim>\<open>GloVeAdaGrad\<close> of the modules
  \<^verbatim>\<open>model\<close> and \<^verbatim>\<open>optimizer\<close>: \<open>new_model learning_rate x_max alpha num_threads\<close> is what the
  two constructors hold besides the parameter arrays (accumulators, cached values), and
  \<open>step\<close> is \<^verbatim>\<open>forward\<close> followed by \<^verbatim>\<open>backward\<close> on one sample: it returns the arrays and the
  model as the two calls leave them, and the sample's loss.
\<close>

record 'o env =
  rnd :: "nat \<Rightarrow> nat \<Rightarrow> nat \<Rightarrow> real"
  cpucount :: int
  shuffle :: "nat list \<times> nat list \<times> pydata \<Rightarrow> error + nat list \<times> nat list \<times> pydata"
  new_model :: "real \<Rightarrow> real \<Rightarrow> real \<Rightarrow> int \<Rightarrow> 'o"
  step :: "glove_params \<times> 'o \<Rightarrow> nat \<Rightarrow> nat \<Rightarrow> real \<Rightarrow> (glove_params \<times> 'o) \<times> real"

definition X_shape :: "pyobject \<Rightarrow> error + nat \<times> nat" where
  \<comment> \<open>\<^verbatim>\<open>X.shape\<close>\<close>
  "X_shape X = (case X of
       PyNone \<Rightarrow> Inl AttributeError
     | PyOther \<Rightarrow> Inl AttributeError
     | ndarray m \<Rightarrow> Inr (nrows m, ncols m)
     | sparse f d m \<Rightarrow> Inr (nrows m, ncols m))"

definition nonzero :: "mat \<Rightarrow> (nat \<times> nat) list" where
  \<comment> \<open>the positions of the nonzero entries, row by row\<close>
  "nonzero m =
     concat (map (\<lambda>r. map (\<lambda>c. (r, c)) (filter (\<lambda>c. cell m r c \<noteq> 0) [0..<ncols m]))
                 [0..<nrows m])"

definition nonzero_by_column :: "mat \<Rightarrow> (nat \<times> nat) list" where
  \<comment> \<open>the positions of the nonzero entries, column by column\<close>
  "nonzero_by_column m =
     concat (map (\<lambda>c. map (\<lambda>r. (r, c)) (filter (\<lambda>r. cell m r c \<noteq> 0) [0..<nrows m]))
                 [0..<ncols m])"

definition X_nonzero :: "pyobject \<Rightarrow> error + nat list \<times> nat list" where
  \<comment> \<open>\<^verbatim>\<open>X.nonzero()\<close>: the row indices and the column indices, in row-major order (scipy
      sorts those of a csc matrix by row)\<close>
  "X_nonzero X = (case X of
       PyNone \<Rightarrow> Inl AttributeError
     | PyOther \<Rightarrow> Inl AttributeError
     | ndarray m \<Rightarrow> Inr (map fst (nonzero m), map snd (nonzero m))
     | sparse f d m \<Rightarrow> Inr (map fst (nonzero m), map snd (nonzero m)))"

definition X_data :: "pyobject \<Rightarrow> error + pydata" where
  \<comment> \<open>\<^verbatim>\<open>X.data\<close>: the stored values, row by row for the csr and coo formats and column by
      column for csc; an array of Python lists for lil; the raw buffer of a dense array\<close>
  "X_data X = (case X of
       PyNone \<Rightarrow> Inl AttributeError
     | PyOther \<Rightarrow> Inl AttributeError
     | ndarray m \<Rightarrow> Inr MemoryView
     | sparse f d m \<Rightarrow>
         (if f = lil_matrix \<or> d \<noteq> float64 then Inr OtherArray
          else if f = csc_matrix
          then Inr (DoubleArray (map (\<lambda>(r, c). cell m r c) (nonzero_by_column m)))
          else Inr (DoubleArray (map (\<lambda>(r, c). cell m r c) (nonzero m)))))"

definition uniform2 :: "(nat \<Rightarrow> nat \<Rightarrow> nat \<Rightarrow> real) \<Rightarrow> nat \<Rightarrow> nat \<Rightarrow> nat \<Rightarrow> nat \<Rightarrow> mat" where
  \<comment> \<open>\<^verbatim>\<open>np.random.uniform(low=-0.5, high=0.5, size=(r, c)) / k\<close>, the draws of call \<open>n\<close>\<close>
  "uniform2 rn n r c k = \<lparr>nrows = r, ncols = c, cell = (\<lambda>i j. rn n i j / real k)\<rparr>"

definition uniform1 :: "(nat \<Rightarrow> nat \<Rightarrow> nat \<Rightarrow> real) \<Rightarrow> nat \<Rightarrow> nat \<Rightarrow> nat \<Rightarrow> real list" where
  \<comment> \<open>\<^verbatim>\<open>np.random.uniform(low=-0.5, high=0.5, size=(r,)) / k\<close>\<close>
  "uniform1 rn n r k = map (\<lambda>i. rn n i 0 / real k) [0..<r]"

subsection \<open>Elementwise arithmetic with broadcasting\<close>

definition broadcast_dim :: "nat \<Rightarrow> nat \<Rightarrow> nat option" where
  \<comment> \<open>numpy's rule for one axis: equal lengths, or one of them is 1\<close>
  "broadcast_dim a b =
     (if a = b then Some a else if a = 1 then Some b else if b = 1 then Some a else None)"

definition np_add :: "mat \<Rightarrow> mat \<Rightarrow> error + mat" where
  \<comment> \<open>\<^verbatim>\<open>A + B\<close> on two-dimensional arrays\<close>
  "np_add A B =
     (case (broadcast_dim (nrows A) (nrows B), broadcast_dim (ncols A) (ncols B)) of
        (Some r, Some c) \<Rightarrow>
          Inr \<lparr>nrows = r, ncols = c,
               cell = (\<lambda>i j. cell A (if nrows A = 1 then 0 else i) (if ncols A = 1 then 0 else j)
                            + cell B (if nrows B = 1 then 0 else i) (if ncols B = 1 then 0 else j))\<rparr>
      | _ \<Rightarrow> Inl ValueError)"

definition np_div_scalar :: "mat \<Rightarrow> real \<Rightarrow> mat" where
  \<comment> \<open>\<^verbatim>\<open>A / 2.0\<close>\<close>
  "np_div_scalar A d = A\<lparr>cell := (\<lambda>i j. cell A i j / d)\<rparr>"

subsection \<open>\<^verbatim>\<open>fit_glove\<close>\<close>

text \<open>
  The sample loop of one epoch,
  \<^verbatim>\<open>loss[l] = glove_model.forward(central_words[l], context_words[l], counts[l])\<close> and
  \<^verbatim>\<open>glove_model.backward(central_words[l], context_words[l])\<close>, in index order and without
  bounds checks.
\<close>

fun glove_pass ::
  "'o env \<Rightarrow> nat list \<Rightarrow> nat list \<Rightarrow> real list \<Rightarrow> nat list
   \<Rightarrow> (glove_params \<times> 'o) \<times> real list \<Rightarrow> error + (glove_params \<times> 'o) \<times> real list" where
  "glove_pass E central_words context_words counts [] st = Inr st"
| "glove_pass E central_words context_words counts (l # ls) st =
     (case st of (m, loss_buf) \<Rightarrow>
        if l < length central_words \<and> l < length context_words \<and> l < length counts
        then (case step E m (central_words ! l) (context_words ! l) (counts ! l) of
                (m', v) \<Rightarrow>
                  if l < length loss_buf
                  then glove_pass E central_words context_words counts ls
                         (m', loss_buf[l := v])
                  else Inl OutOfBoundsWrite)
        else Inl OutOfBoundsRead)"

text \<open>
  The epochs. Each one ends by formatting \<^verbatim>\<open>acc_loss/N\<close> for the progress bar, a division
  that raises on \<open>N = 0\<close>; the quotients are the losses the run reports, returned here with
  the state.
\<close>

fun glove_epochs ::
  "'o env \<Rightarrow> nat list \<Rightarrow> nat list \<Rightarrow> real list \<Rightarrow> nat
   \<Rightarrow> ((glove_params \<times> 'o) \<times> real list) \<times> real list
   \<Rightarrow> error + ((glove_params \<times> 'o) \<times> real list) \<times> real list" where
  "glove_epochs E central_words context_words counts 0 st = Inr st"
| "glove_epochs E central_words context_words counts (Suc n) st =
     (case st of (mb, reported) \<Rightarrow>
        ebind (glove_pass E central_words context_words counts
                 [0..<length central_words] mb) (\<lambda>(m, buf).
        ebind (mean_loss buf (length central_words)) (\<lambda>q.
        glove_epochs E central_words context_words counts n ((m, buf), reported @ [q]))))"

text \<open>
  \<^verbatim>\<open>fit_glove\<close> (and the method \<^verbatim>\<open>_fit_glove\<close>, which is the same code). The typed argument
  \<^verbatim>\<open>double[:] counts\<close> refuses anything but a one-dimensional array of doubles. A negative
  \<^verbatim>\<open>num_iterations\<close> runs no epoch. The result is the parameter arrays as training leaves
  them, and the reported losses.
\<close>

definition fit_glove ::
  "'o env \<Rightarrow> nat list \<Rightarrow> nat list \<Rightarrow> pydata \<Rightarrow> glove_params \<Rightarrow> int \<Rightarrow> real \<Rightarrow> real \<Rightarrow> real
   \<Rightarrow> int \<Rightarrow> error + glove_params \<times> real list" where
  "fit_glove E central_words context_words counts p num_iterations lr xmax a num_threads =
     (case counts of
        DoubleArray cs \<Rightarrow>
          ebind (glove_epochs E central_words context_words cs (nat num_iterations)
                   (((p, new_model E lr xmax a num_threads),
                     replicate (length central_words) 0), [])) (\<lambda>((m, buf), reported).
          Inr (fst m, reported))
      | _ \<Rightarrow> Inl ValueError)"

subsection \<open>\<^verbatim>\<open>GloVe.fit\<close>, in its two modules\<close>

record GloVe =
  num_components :: nat
  learning_rate :: real
  GloVe_alpha :: real
  x_max :: real
  GloVe_W :: "mat option"
  bias :: "real list option"

definition cymf_num_threads :: "int \<Rightarrow> int \<Rightarrow> int" where
  \<comment> \<open>\<^verbatim>\<open>num_threads if num_threads > 0 else cpucount()\<close>\<close>
  "cymf_num_threads cpus num_threads = (if num_threads > 0 then num_threads else cpus)"

definition fastmf_num_threads :: "int \<Rightarrow> int \<Rightarrow> int" where
  \<comment> \<open>\<^verbatim>\<open>min(num_threads, multiprocessing.cpu_count())\<close>, in \<^verbatim>\<open>fastmf\<close>'s \<^verbatim>\<open>GloVe.fit\<close> and in
      \<^verbatim>\<open>BPR.fit\<close>\<close>
  "fastmf_num_threads cpus num_threads = min num_threads cpus"

text \<open>
  The four arrays both versions of \<^verbatim>\<open>fit\<close> allocate for an \<open>X\<close> of shape
  \<open>(shape0, shape1)\<close>: \<^verbatim>\<open>self.W\<close>, \<^verbatim>\<open>self.bias\<close>, \<^verbatim>\<open>_W\<close> and \<^verbatim>\<open>_bias\<close>, in this order.
\<close>

definition allocate :: "'o env \<Rightarrow> GloVe \<Rightarrow> nat \<Rightarrow> nat \<Rightarrow> glove_params" where
  "allocate E self shape0 shape1 =
     (let K = num_components self
      in \<lparr>central_W = uniform2 (rnd E) 0 shape0 K K,
          central_bias = uniform1 (rnd E) 1 shape0 K,
          context_W = uniform2 (rnd E) 2 shape1 K K,
          context_bias = uniform1 (rnd E) 3 shape0 K\<rparr>)"

text \<open>
  The statements between the allocation and the last one: \<^verbatim>\<open>X.nonzero()\<close>, \<^verbatim>\<open>X.data\<close>, the
  shuffle and the call of \<^verbatim>\<open>fit_glove\<close> on the allocated arrays, with the number of threads
  already resolved.
\<close>

definition train ::
  "'o env \<Rightarrow> GloVe \<Rightarrow> pyobject \<Rightarrow> glove_params \<Rightarrow> int \<Rightarrow> int \<Rightarrow> error + glove_params \<times> real list"
  where
  "train E self X p num_iterations num_threads =
     ebind (X_nonzero X) (\<lambda>(central_words, context_words).
     ebind (X_data X) (\<lambda>counts.
     ebind (shuffle E (central_words, context_words, counts)) (\<lambda>(cw, xw, cs).
     fit_glove E cw xw cs p num_iterations (learning_rate self) (x_max self)
       (GloVe_alpha self) num_threads)))"

text \<open>
  What both versions of \<^verbatim>\<open>fit\<close> do from the allocation on. \<^verbatim>\<open>self.W\<close> and \<^verbatim>\<open>self.bias\<close>
  are attributes of the object: an exception raised later leaves them set. \<^verbatim>\<open>fit_glove\<close>
  trains the arrays in place: where it raises in the model (a refused argument, the
  division of an epoch without samples) no coordinate has been written. The last statement
  is \<^verbatim>\<open>self.W = (self.W + _W) / 2.0\<close>.
\<close>

definition fit_from_allocation ::
  "'o env \<Rightarrow> (int \<Rightarrow> int \<Rightarrow> int) \<Rightarrow> GloVe \<Rightarrow> pyobject \<Rightarrow> int \<Rightarrow> int \<Rightarrow> GloVe \<times> error option" where
  "fit_from_allocation E resolve self X num_iterations num_threads =
     (case X_shape X of
        Inl e \<Rightarrow> (self, Some e)
      | Inr (shape0, shape1) \<Rightarrow>
          let p0 = allocate E self shape0 shape1;
              self = self\<lparr>GloVe_W := Some (central_W p0), bias := Some (central_bias p0)\<rparr>;
              num_threads = resolve (cpucount E) num_threads
          in
          (case train E self X p0 num_iterations num_threads of
             Inl e \<Rightarrow> (self, Some e)
           | Inr (p, reported) \<Rightarrow>
               let self = self\<lparr>GloVe_W := Some (central_W p), bias := Some (central_bias p)\<rparr>
               in (case np_add (central_W p) (context_W p) of
                     Inl e \<Rightarrow> (self, Some e)
                   | Inr both \<Rightarrow> (self\<lparr>GloVe_W := Some (np_div_scalar both 2)\<rparr>, None))))"

definition isinstance_sparse :: "pyobject \<Rightarrow> bool" where
  \<comment> \<open>\<^verbatim>\<open>isinstance(X, (sparse.lil_matrix, sparse.csr_matrix, sparse.csc_matrix))\<close>\<close>
  "isinstance_sparse X = (case X of
       sparse f d m \<Rightarrow> f = lil_matrix \<or> f = csr_matrix \<or> f = csc_matrix
     | _ \<Rightarrow> False)"

definition cymf_fit :: "'o env \<Rightarrow> GloVe \<Rightarrow> pyobject \<Rightarrow> int \<Rightarrow> int \<Rightarrow> GloVe \<times> error option" where
  \<comment> \<open>\<^verbatim>\<open>GloVe.fit\<close> of \<^verbatim>\<open>cymf/glove.pyx\<close>\<close>
  "cymf_fit E self X num_epochs num_threads =
     (if X = PyNone then (self, Some ValueError)
      else if \<not> isinstance_sparse X then (self, Some TypeError)
      else fit_from_allocation E cymf_num_threads self X num_epochs num_threads)"

definition fastmf_fit :: "'o env \<Rightarrow> GloVe \<Rightarrow> pyobject \<Rightarrow> int \<Rightarrow> int \<Rightarrow> GloVe \<times> error option" where
  \<comment> \<open>\<^verbatim>\<open>GloVe.fit\<close> of \<^verbatim>\<open>fastmf/glove.pyx\<close>: no check of \<open>X\<close> comes first\<close>
  "fastmf_fit E self X num_iterations num_threads =
     fit_from_allocation E fastmf_num_threads self X num_iterations num_threads"

text \<open>
  Training writes coordinates of the four arrays and leaves their shapes alone: the
  assumption made of \<open>step\<close> where a property needs it.
\<close>

definition params_shape :: "glove_params \<Rightarrow> (nat \<times> nat) \<times> nat \<times> (nat \<times> nat) \<times> nat" where
  "params_shape p =
     ((nrows (central_W p), ncols (central_W p)), length (central_bias p),
      (nrows (context_W p), ncols (context_W p)), length (context_bias p))"

definition keeps_shapes :: "'o env \<Rightarrow> bool" where
  "keeps_shapes E \<longleftrightarrow>
     (\<forall>m i j c. params_shape (fst (fst (step E m i j c))) = params_shape (fst m))"

text \<open>
  An environment for the examples: every draw is 0, one core, a shuffle that keeps the
  order, and a model without state whose step changes nothing and reports the loss 0.
\<close>

definition plain_env :: "unit env" where
  "plain_env = \<lparr>rnd = (\<lambda>c i j. 0), cpucount = 1, shuffle = Inr,
      new_model = (\<lambda>lr xmax a nt. ()), step = (\<lambda>m i j c. (m, 0))\<rparr>"

definition new_GloVe :: "nat \<Rightarrow> GloVe" where
  \<comment> \<open>\<^verbatim>\<open>GloVe(num_components)\<close>, with the defaults of \<^verbatim>\<open>__init__\<close> and no arrays yet\<close>
  "new_GloVe k = \<lparr>num_components = k, learning_rate = 0.01, GloVe_alpha = 0.75,
      x_max = 10, GloVe_W = None, bias = None\<rparr>"

section \<open>The optimizer's rule, as the specification writes it\<close>

text \<open>
  \<open>M = \<beta>1*M + (1-\<beta>1)*g\<close>, \<open>V = \<beta>2*V + (1-\<beta>2)*g\<^sup>2\<close> and
  \<open>param -= \<alpha> * (M/(1-\<beta>1)) / (sqrt(V/(1-\<beta>2)) + \<epsilon>)\<close>, with the new \<open>M\<close> and \<open>V\<close> and the
  constant denominators.
\<close>

definition adam_M_spec :: "real \<Rightarrow> real \<Rightarrow> real \<Rightarrow> real" where
  "adam_M_spec b1 m g = b1 * m + (1 - b1) * g"

definition adam_V_spec :: "real \<Rightarrow> real \<Rightarrow> real \<Rightarrow> real" where
  "adam_V_spec b2 v g = b2 * v + (1 - b2) * g\<^sup>2"

definition adam_param_spec :: "real \<Rightarrow> real \<Rightarrow> real \<Rightarrow> real \<Rightarrow> real \<Rightarrow> real \<Rightarrow> real \<Rightarrow> real" where
  "adam_param_spec a b1 b2 eps p m v = p - a * (m / (1 - b1)) / (sqrt (v / (1 - b2)) + eps)"

text \<open>
  The gradients of one sample at coordinate \<open>k\<close>, as the specification writes them: with
  \<open>x = dot(W[u], H[i] - H[j])\<close> and \<open>s = sigmoid(-x)\<close>, \<open>g_W[u,k] = -(s*(H[i,k]-H[j,k]) -
  decay*W[u,k])\<close>, \<open>g_H[i,k] = -(s*W[u,k] - decay*H[i,k])\<close> and \<open>g_H[j,k] = -(-s*W[u,k] -
  decay*H[j,k])\<close>.
\<close>

definition bpr_gradients_spec :: "BprAdamUpdater \<Rightarrow> nat \<Rightarrow> nat \<Rightarrow> nat \<Rightarrow> nat \<Rightarrow> real \<times> real \<times> real" where
  "bpr_gradients_spec s u i j k =
     (let x = dot (row (W s) u) (map2 (-) (row (H s) i) (row (H s) j));
          sg = sigmoid (- x)
      in (- (sg * (cell (H s) i k - cell (H s) j k) - weight_decay s * cell (W s) u k),
          - (sg * cell (W s) u k - weight_decay s * cell (H s) i k),
          - (- sg * cell (W s) u k - weight_decay s * cell (H s) j k)))"

text \<open>
  Two updater states agree on column \<open>k\<close> of the six arrays (used in the proofs about the
  coordinate loop).
\<close>

definition same_column :: "nat \<Rightarrow> BprAdamUpdater \<Rightarrow> BprAdamUpdater \<Rightarrow> bool" where
  "same_column k s t \<longleftrightarrow>
     (\<forall>r. cell (W s) r k = cell (W t) r k \<and> cell (H s) r k = cell (H t) r k
        \<and> cell (M_W s) r k = cell (M_W t) r k \<and> cell (V_W s) r k = cell (V_W t) r k
        \<and> cell (M_H s) r k = cell (M_H t) r k \<and> cell (V_H s) r k = cell (V_H t) r k)"

section \<open>Fixed inputs for the examples\<close>

definition first_draw :: "nat \<Rightarrow> nat" where
  \<comment> \<open>a generator whose every draw is 0\<close>
  "first_draw n = 0"

definition insertion_argsort :: "real list \<Rightarrow> nat list" where
  \<comment> \<open>an \<^verbatim>\<open>argsort\<close> by insertion sort, which leaves equal scores in the order of their
      positions\<close>
  "insertion_argsort xs = sort_key (\<lambda>i. xs ! i) [0..<length xs]"

section \<open>Well-formed calls of \<^verbatim>\<open>fit_bpr\<close>\<close>

text \<open>
  The shape of the two factor matrices, which no update changes.
\<close>

definition shapes :: "BprAdamUpdater \<Rightarrow> (nat \<times> nat) \<times> (nat \<times> nat)" where
  "shapes s = ((nrows (W s), ncols (W s)), (nrows (H s), ncols (H s)))"

text \<open>
  What \<^verbatim>\<open>BPR.fit\<close> passes for an interaction matrix \<open>X\<close>: \<open>W\<close> with a row for each row of
  \<open>X\<close> and \<open>H\<close> with a row for each column, both with the same number of columns, and
  \<open>users\<close> and \<open>positives\<close> of equal length, holding row and column indices of \<open>X\<close>. The last
  condition says that the sampler finds a candidate in the row of every sample.
\<close>

definition bpr_inputs_ok :: "mat \<Rightarrow> mat \<Rightarrow> mat \<Rightarrow> nat list \<Rightarrow> nat list \<Rightarrow> bool" where
  "bpr_inputs_ok X w h users positives \<longleftrightarrow>
     nrows w = nrows X \<and> nrows h = ncols X \<and> ncols w = ncols h
     \<and> length positives = length users
     \<and> (\<forall>l<length users. users ! l < nrows X \<and> positives ! l < ncols X
            \<and> candidates X (users ! l) \<noteq> [])"

text \<open>
  The reads of one pass stay inside the arrays: the samples \<open>ls\<close> exist in \<open>us\<close>, \<open>ps\<close> and
  \<open>negs\<close>, and their indices are rows of factor matrices of the shape \<open>sh\<close>.
\<close>

definition reads_in_range ::
  "(nat \<times> nat) \<times> (nat \<times> nat) \<Rightarrow> nat list \<Rightarrow> nat list \<Rightarrow> nat list list \<Rightarrow> nat \<Rightarrow> nat list \<Rightarrow> bool"
  where
  "reads_in_range sh us ps negs iteration ls \<longleftrightarrow>
     (case sh of ((nW, kW), (nH, kH)) \<Rightarrow>
        kW \<le> kH
        \<and> (\<forall>l\<in>set ls. l < length us \<and> l < length ps \<and> l < length negs
              \<and> iteration < length (negs ! l)
              \<and> us ! l < nW \<and> ps ! l < nH \<and> negs ! l ! iteration < nH))"

section \<open>Properties of the ranking model's loss\<close>

lemma fold_forward_step:
  "fold (forward_step s u i j) [0..<n] (a, b) =
     (a + (\<Sum>k<n. cell (W s) u k * (cell (H s) i k - cell (H s) j k)),
      b + (\<Sum>k<n. square (cell (W s) u k) + square (cell (H s) i k) + square (cell (H s) j k)))"
  by (induction n) (simp_all add: forward_step_def)

lemma sum_list_upt_lessThan: "sum_list (map f [0..<n]) = (\<Sum>k<n. (f k :: real))"
  by (simp add: interv_sum_list_conv_sum_set_nat lessThan_atLeast0)

lemma dot_rows:
  "ncols h = ncols w \<Longrightarrow>
   dot (row w u) (map2 (-) (row h i) (row h j)) =
     (\<Sum>k<ncols w. cell w u k * (cell h i k - cell h j k))"
  by (simp add: dot_def row_def map2_map_map sum_list_upt_lessThan)

lemma sqnorm_row: "sqnorm (row m r) = (\<Sum>k<ncols m. square (cell m r k))"
  by (simp add: sqnorm_def row_def comp_def sum_list_upt_lessThan square_def power2_eq_square)

text \<open>
  C4. Whatever \<open>u\<close>, \<open>i\<close> and \<open>j\<close>, \<^verbatim>\<open>loss(u, i, j, update=False)\<close> returns
  \<open>-log(sigmoid(dot(W[u], H[i]-H[j]))) + weight_decay * (\<parallel>W[u]\<parallel>\<^sup>2 + \<parallel>H[i]\<parallel>\<^sup>2 + \<parallel>H[j]\<parallel>\<^sup>2)\<close>
  and leaves the updater as it was: \<open>W\<close>, \<open>H\<close> and the four accumulators. (The two factor
  matrices have the same number of columns, over exact real arithmetic.)
\<close>

theorem loss_without_update:
  assumes "ncols (H s) = ncols (W s)"
  shows "loss s u i j False = (s, bpr_loss_spec (W s) (H s) (weight_decay s) u i j)"
  using assms
  by (simp add: loss_def Let_def fold_forward_step bpr_loss_spec_def dot_rows sqnorm_row
      sum.distrib)

theorem loss_without_update_witness:
  "ncols (H (BprAdamUpdater_init (np_zeros 1 1) (np_zeros 2 1) 1 1))
     = ncols (W (BprAdamUpdater_init (np_zeros 1 1) (np_zeros 2 1) 1 1))
   \<and> loss (BprAdamUpdater_init (np_zeros 1 1) (np_zeros 2 1) 1 1) 0 0 1 False
     = (BprAdamUpdater_init (np_zeros 1 1) (np_zeros 2 1) 1 1, ln 2)"
  using loss_without_update [of "BprAdamUpdater_init (np_zeros 1 1) (np_zeros 2 1) 1 1" 0 0 1]
  by (simp add: BprAdamUpdater_init_def np_zeros_def bpr_loss_spec_def dot_def sqnorm_def
      row_def sigmoid_def ln_div)

section \<open>Properties of the optimizer's update\<close>

lemma assign_M_W_fields [simp]:
  "W (assign_M_W u k g s) = W s" "H (assign_M_W u k g s) = H s"
  "M_W (assign_M_W u k g s) = mput (M_W s) u k (adam_M_spec (beta1 s) (cell (M_W s) u k) g)"
  "V_W (assign_M_W u k g s) = V_W s" "M_H (assign_M_W u k g s) = M_H s"
  "V_H (assign_M_W u k g s) = V_H s"
  "alpha (assign_M_W u k g s) = alpha s" "beta1 (assign_M_W u k g s) = beta1 s"
  "beta2 (assign_M_W u k g s) = beta2 s" "epsilon (assign_M_W u k g s) = epsilon s"
  "weight_decay (assign_M_W u k g s) = weight_decay s"
  by (simp_all add: assign_M_W_def adam_M_spec_def)

lemma assign_M_H_fields [simp]:
  "W (assign_M_H i k g s) = W s" "H (assign_M_H i k g s) = H s"
  "M_W (assign_M_H i k g s) = M_W s"
  "V_W (assign_M_H i k g s) = V_W s"
  "M_H (assign_M_H i k g s) = mput (M_H s) i k (adam_M_spec (beta1 s) (cell (M_H s) i k) g)"
  "V_H (assign_M_H i k g s) = V_H s"
  "alpha (assign_M_H i k g s) = alpha s" "beta1 (assign_M_H i k g s) = beta1 s"
  "beta2 (assign_M_H i k g s) = beta2 s" "epsilon (assign_M_H i k g s) = epsilon s"
  "weight_decay (assign_M_H i k g s) = weight_decay s"
  by (simp_all add: assign_M_H_def adam_M_spec_def)

lemma assign_V_W_fields [simp]:
  "W (assign_V_W u k g s) = W s" "H (assign_V_W u k g s) = H s"
  "M_W (assign_V_W u k g s) = M_W s"
  "V_W (assign_V_W u k g s) = mput (V_W s) u k (adam_V_spec (beta2 s) (cell (V_W s) u k) g)"
  "M_H (assign_V_W u k g s) = M_H s"
  "V_H (assign_V_W u k g s) = V_H s"
  "alpha (assign_V_W u k g s) = alpha s" "beta1 (assign_V_W u k g s) = beta1 s"
  "beta2 (assign_V_W u k g s) = beta2 s" "epsilon (assign_V_W u k g s) = epsilon s"
  "weight_decay (assign_V_W u k g s) = weight_decay s"
  by (simp_all add: assign_V_W_def adam_V_spec_def square_def power2_eq_square)

lemma assign_V_H_fields [simp]:
  "W (assign_V_H i k g s) = W s" "H (assign_V_H i k g s) = H s"
  "M_W (assign_V_H i k g s) = M_W s"
  "V_W (assign_V_H i k g s) = V_W s"
  "M_H (assign_V_H i k g s) = M_H s"
  "V_H (assign_V_H i k g s) = mput (V_H s) i k (adam_V_spec (beta2 s) (cell (V_H s) i k) g)"
  "alpha (assign_V_H i k g s) = alpha s" "beta1 (assign_V_H i k g s) = beta1 s"
  "beta2 (assign_V_H i k g s) = beta2 s" "epsilon (assign_V_H i k g s) = epsilon s"
  "weight_decay (assign_V_H i k g s) = weight_decay s"
  by (simp_all add: assign_V_H_def adam_V_spec_def square_def power2_eq_square)

lemma assign_W_fields [simp]:
  "W (assign_W u k s) = mput (W s) u k
     (adam_param_spec (alpha s) (beta1 s) (beta2 s) (epsilon s) (cell (W s) u k)
        (cell (M_W s) u k) (cell (V_W s) u k))"
  "H (assign_W u k s) = H s"
  "M_W (assign_W u k s) = M_W s" "V_W (assign_W u k s) = V_W s"
  "M_H (assign_W u k s) = M_H s" "V_H (assign_W u k s) = V_H s"
  "alpha (assign_W u k s) = alpha s" "beta1 (assign_W u k s) = beta1 s"
  "beta2 (assign_W u k s) = beta2 s" "epsilon (assign_W u k s) = epsilon s"
  "weight_decay (assign_W u k s) = weight_decay s"
  by (simp_all add: assign_W_def adam_param_spec_def)

lemma assign_H_fields [simp]:
  "W (assign_H i k s) = W s"
  "H (assign_H i k s) = mput (H s) i k
     (adam_param_spec (alpha s) (beta1 s) (beta2 s) (epsilon s) (cell (H s) i k)
        (cell (M_H s) i k) (cell (V_H s) i k))"
  "M_W (assign_H i k s) = M_W s" "V_W (assign_H i k s) = V_W s"
  "M_H (assign_H i k s) = M_H s" "V_H (assign_H i k s) = V_H s"
  "alpha (assign_H i k s) = alpha s" "beta1 (assign_H i k s) = beta1 s"
  "beta2 (assign_H i k s) = beta2 s" "epsilon (assign_H i k s) = epsilon s"
  "weight_decay (assign_H i k s) = weight_decay s"
  by (simp_all add: assign_H_def adam_param_spec_def)

lemma mput_shape [simp]: "nrows (mput m r c v) = nrows m" "ncols (mput m r c v) = ncols m"
  by (simp_all add: mput_def)

lemma cell_mput: "cell (mput m r c v) r' c' = (if r' = r \<and> c' = c then v else cell m r' c')"
  by (simp add: mput_def)

lemma update_step_scalars:
  "alpha (update_step u i j x k s) = alpha s"
  "beta1 (update_step u i j x k s) = beta1 s"
  "beta2 (update_step u i j x k s) = beta2 s"
  "epsilon (update_step u i j x k s) = epsilon s"
  "weight_decay (update_step u i j x k s) = weight_decay s"
  by (simp_all add: update_step_def Let_def)

lemma fold_update_step_scalars:
  "alpha (fold (update_step u i j x) ks s) = alpha s
   \<and> beta1 (fold (update_step u i j x) ks s) = beta1 s
   \<and> beta2 (fold (update_step u i j x) ks s) = beta2 s
   \<and> epsilon (fold (update_step u i j x) ks s) = epsilon s
   \<and> weight_decay (fold (update_step u i j x) ks s) = weight_decay s"
  by (induction ks arbitrary: s) (simp_all add: update_step_scalars)

lemma update_step_other_column:
  "k' \<noteq> k \<Longrightarrow> same_column k (update_step u i j x k' s) s"
  by (simp add: same_column_def update_step_def Let_def cell_mput)

lemma fold_update_step_other_columns:
  "k \<notin> set ks \<Longrightarrow> same_column k (fold (update_step u i j x) ks s) s"
proof (induction ks arbitrary: s)
  case Nil
  then show ?case by (simp add: same_column_def)
next
  case (Cons k' ks)
  then have "same_column k (fold (update_step u i j x) ks (update_step u i j x k' s))
               (update_step u i j x k' s)"
    and "same_column k (update_step u i j x k' s) s"
    by (simp_all add: update_step_other_column)
  then show ?case by (simp add: same_column_def)
qed

lemma update_step_W:
  "cell (M_W (update_step u i j x k s)) u k =
     adam_M_spec (beta1 s) (cell (M_W s) u k)
       (- (x * (cell (H s) i k - cell (H s) j k) - weight_decay s * cell (W s) u k))"
  "cell (V_W (update_step u i j x k s)) u k =
     adam_V_spec (beta2 s) (cell (V_W s) u k)
       (- (x * (cell (H s) i k - cell (H s) j k) - weight_decay s * cell (W s) u k))"
  "cell (W (update_step u i j x k s)) u k =
     adam_param_spec (alpha s) (beta1 s) (beta2 s) (epsilon s) (cell (W s) u k)
       (cell (M_W (update_step u i j x k s)) u k) (cell (V_W (update_step u i j x k s)) u k)"
  by (simp_all add: update_step_def Let_def cell_mput)

lemma update_step_H:
  assumes "i \<noteq> j"
  shows
  "cell (M_H (update_step u i j x k s)) i k =
     adam_M_spec (beta1 s) (cell (M_H s) i k)
       (- (x * cell (W s) u k - weight_decay s * cell (H s) i k))"
  "cell (V_H (update_step u i j x k s)) i k =
     adam_V_spec (beta2 s) (cell (V_H s) i k)
       (- (x * cell (W s) u k - weight_decay s * cell (H s) i k))"
  "cell (H (update_step u i j x k s)) i k =
     adam_param_spec (alpha s) (beta1 s) (beta2 s) (epsilon s) (cell (H s) i k)
       (cell (M_H (update_step u i j x k s)) i k) (cell (V_H (update_step u i j x k s)) i k)"
  "cell (M_H (update_step u i j x k s)) j k =
     adam_M_spec (beta1 s) (cell (M_H s) j k)
       (- (x * (- cell (W s) u k) - weight_decay s * cell (H s) j k))"
  "cell (V_H (update_step u i j x k s)) j k =
     adam_V_spec (beta2 s) (cell (V_H s) j k)
       (- (x * (- cell (W s) u k) - weight_decay s * cell (H s) j k))"
  "cell (H (update_step u i j x k s)) j k =
     adam_param_spec (alpha s) (beta1 s) (beta2 s) (epsilon s) (cell (H s) j k)
       (cell (M_H (update_step u i j x k s)) j k) (cell (V_H (update_step u i j x k s)) j k)"
  using assms
  by (simp_all add: update_step_def Let_def cell_mput)


lemma update_step_H_alias:
  "cell (M_H (update_step u i i x k s)) i k =
     adam_M_spec (beta1 s)
       (adam_M_spec (beta1 s) (cell (M_H s) i k)
          (- (x * cell (W s) u k - weight_decay s * cell (H s) i k)))
       (- (x * (- cell (W s) u k) - weight_decay s * cell (H s) i k))"
  "cell (V_H (update_step u i i x k s)) i k =
     adam_V_spec (beta2 s)
       (adam_V_spec (beta2 s) (cell (V_H s) i k)
          (- (x * cell (W s) u k - weight_decay s * cell (H s) i k)))
       (- (x * (- cell (W s) u k) - weight_decay s * cell (H s) i k))"
  "cell (H (update_step u i i x k s)) i k =
     adam_param_spec (alpha s) (beta1 s) (beta2 s) (epsilon s)
       (adam_param_spec (alpha s) (beta1 s) (beta2 s) (epsilon s) (cell (H s) i k)
          (cell (M_H (update_step u i i x k s)) i k) (cell (V_H (update_step u i i x k s)) i k))
       (cell (M_H (update_step u i i x k s)) i k) (cell (V_H (update_step u i i x k s)) i k)"
  by (simp_all add: update_step_def Let_def cell_mput)

lemma update_step_same_column:
  assumes "same_column k t s" "alpha t = alpha s" "beta1 t = beta1 s" "beta2 t = beta2 s"
    "epsilon t = epsilon s" "weight_decay t = weight_decay s"
  shows "same_column k (update_step u i j x k t) (update_step u i j x k s)"
  using assms by (simp add: same_column_def update_step_def Let_def cell_mput)

lemma same_column_trans:
  "same_column k a b \<Longrightarrow> same_column k b c \<Longrightarrow> same_column k a c"
  by (simp add: same_column_def)

lemma fold_update_step_column:
  assumes "k < K"
  shows "same_column k (fold (update_step u i j x) [0..<K] s) (update_step u i j x k s)"
proof -
  let ?f = "update_step u i j x"
  have split: "[0..<K] = [0..<k] @ k # [Suc k..<K]"
    using assms by (metis le_add_diff_inverse less_imp_le_nat upt_add_eq_append upt_conv_Cons zero_le)
  define s1 where "s1 = fold ?f [0..<k] s"
  have before: "same_column k s1 s"
    unfolding s1_def by (rule fold_update_step_other_columns) simp
  have scal: "alpha s1 = alpha s" "beta1 s1 = beta1 s" "beta2 s1 = beta2 s"
    "epsilon s1 = epsilon s" "weight_decay s1 = weight_decay s"
    unfolding s1_def using fold_update_step_scalars [of u i j x "[0..<k]" s] by simp_all
  have at: "same_column k (?f k s1) (?f k s)"
    using before scal by (rule update_step_same_column)
  have after: "same_column k (fold ?f [Suc k..<K] (?f k s1)) (?f k s1)"
    by (rule fold_update_step_other_columns) simp
  have "fold ?f [0..<K] s = fold ?f [Suc k..<K] (?f k s1)"
    by (subst split) (simp add: s1_def)
  then show ?thesis
    using after at same_column_trans by metis
qed

lemma sigmoid_neg: "sigmoid (- x) = 1 / (1 + exp x)"
  by (simp add: sigmoid_def)

lemma loss_update_state:
  "fst (loss s u i j True) =
     fold (update_step u i j
             (1 / (1 + exp (\<Sum>k<ncols (W s). cell (W s) u k * (cell (H s) i k - cell (H s) j k)))))
       [0..<ncols (W s)] s"
  by (simp add: loss_def Let_def fold_forward_step)

text \<open>
  C3. The accumulators \<open>M\<close> and \<open>V\<close> start at zero, with \<open>\<beta>1 = 0.9\<close>, \<open>\<beta>2 = 0.999\<close> and
  \<open>\<epsilon> = 1e-8\<close>, and a call of \<^verbatim>\<open>loss\<close> with \<^verbatim>\<open>update=True\<close> keeps the three constants and
  leaves, at every coordinate \<open>k\<close> of the rows \<open>W[u]\<close>, \<open>H[i]\<close> and \<open>H[j]\<close>, the accumulators
  \<open>M = \<beta>1*M + (1-\<beta>1)*g\<close> and \<open>V = \<beta>2*V + (1-\<beta>2)*g\<^sup>2\<close> and the parameter
  \<open>param - \<alpha> * (M/(1-\<beta>1)) / (sqrt(V/(1-\<beta>2)) + \<epsilon>)\<close>, with the constant denominators
  \<open>1-\<beta>1\<close> and \<open>1-\<beta>2\<close>; \<open>g\<close> is the gradient of the sample at the coordinate. When \<open>i = j\<close>
  the row \<open>H[i]\<close> goes through the rule twice, as the source's statements do.
\<close>

theorem adam_update_rule:
  assumes "ncols (H s) = ncols (W s)" and "k < ncols (W s)"
  shows
    "M_W (BprAdamUpdater_init w h lr wd) = np_zeros (nrows w) (ncols w)
     \<and> V_W (BprAdamUpdater_init w h lr wd) = np_zeros (nrows w) (ncols w)
     \<and> M_H (BprAdamUpdater_init w h lr wd) = np_zeros (nrows h) (ncols h)
     \<and> V_H (BprAdamUpdater_init w h lr wd) = np_zeros (nrows h) (ncols h)
     \<and> beta1 (BprAdamUpdater_init w h lr wd) = 9 / 10
     \<and> beta2 (BprAdamUpdater_init w h lr wd) = 999 / 1000
     \<and> epsilon (BprAdamUpdater_init w h lr wd) = 1 / 10 ^ 8
     \<and> (case bpr_gradients_spec s u i j k of (g_W, g_Hi, g_Hj) \<Rightarrow>
         let s' = fst (loss s u i j True);
             adam = adam_param_spec (alpha s) (beta1 s) (beta2 s) (epsilon s)
         in beta1 s' = beta1 s \<and> beta2 s' = beta2 s \<and> epsilon s' = epsilon s
          \<and> cell (M_W s') u k = adam_M_spec (beta1 s) (cell (M_W s) u k) g_W
          \<and> cell (V_W s') u k = adam_V_spec (beta2 s) (cell (V_W s) u k) g_W
          \<and> cell (W s') u k = adam (cell (W s) u k) (cell (M_W s') u k) (cell (V_W s') u k)
          \<and> (i \<noteq> j \<longrightarrow>
               cell (M_H s') i k = adam_M_spec (beta1 s) (cell (M_H s) i k) g_Hi
             \<and> cell (V_H s') i k = adam_V_spec (beta2 s) (cell (V_H s) i k) g_Hi
             \<and> cell (H s') i k = adam (cell (H s) i k) (cell (M_H s') i k) (cell (V_H s') i k)
             \<and> cell (M_H s') j k = adam_M_spec (beta1 s) (cell (M_H s) j k) g_Hj
             \<and> cell (V_H s') j k = adam_V_spec (beta2 s) (cell (V_H s) j k) g_Hj
             \<and> cell (H s') j k = adam (cell (H s) j k) (cell (M_H s') j k) (cell (V_H s') j k))
          \<and> (i = j \<longrightarrow>
               cell (M_H s') i k
                 = adam_M_spec (beta1 s) (adam_M_spec (beta1 s) (cell (M_H s) i k) g_Hi) g_Hj
             \<and> cell (V_H s') i k
                 = adam_V_spec (beta2 s) (adam_V_spec (beta2 s) (cell (V_H s) i k) g_Hi) g_Hj
             \<and> cell (H s') i k
                 = adam (adam (cell (H s) i k) (cell (M_H s') i k) (cell (V_H s') i k))
                     (cell (M_H s') i k) (cell (V_H s') i k)))"
proof -
  define x where
    "x = 1 / (1 + exp (\<Sum>k<ncols (W s). cell (W s) u k * (cell (H s) i k - cell (H s) j k)))"
  define s' where "s' = fst (loss s u i j True)"
  have s': "s' = fold (update_step u i j x) [0..<ncols (W s)] s"
    by (simp add: s'_def x_def loss_update_state)
  have col: "same_column k s' (update_step u i j x k s)"
    unfolding s' using assms(2) by (rule fold_update_step_column)
  have scal: "beta1 s' = beta1 s" "beta2 s' = beta2 s" "epsilon s' = epsilon s"
    unfolding s' using fold_update_step_scalars [of u i j x "[0..<ncols (W s)]" s] by simp_all
  have g: "bpr_gradients_spec s u i j k =
      (- (x * (cell (H s) i k - cell (H s) j k) - weight_decay s * cell (W s) u k),
       - (x * cell (W s) u k - weight_decay s * cell (H s) i k),
       - (x * (- cell (W s) u k) - weight_decay s * cell (H s) j k))"
    using assms(1) by (simp add: bpr_gradients_spec_def Let_def dot_rows sigmoid_neg x_def)
  have cells: "\<And>r. cell (W s') r k = cell (W (update_step u i j x k s)) r k"
    "\<And>r. cell (M_W s') r k = cell (M_W (update_step u i j x k s)) r k"
    "\<And>r. cell (V_W s') r k = cell (V_W (update_step u i j x k s)) r k"
    "\<And>r. cell (H s') r k = cell (H (update_step u i j x k s)) r k"
    "\<And>r. cell (M_H s') r k = cell (M_H (update_step u i j x k s)) r k"
    "\<And>r. cell (V_H s') r k = cell (V_H (update_step u i j x k s)) r k"
    using col by (simp_all add: same_column_def)
  have init: "M_W (BprAdamUpdater_init w h lr wd) = np_zeros (nrows w) (ncols w)
     \<and> V_W (BprAdamUpdater_init w h lr wd) = np_zeros (nrows w) (ncols w)
     \<and> M_H (BprAdamUpdater_init w h lr wd) = np_zeros (nrows h) (ncols h)
     \<and> V_H (BprAdamUpdater_init w h lr wd) = np_zeros (nrows h) (ncols h)
     \<and> beta1 (BprAdamUpdater_init w h lr wd) = 9 / 10
     \<and> beta2 (BprAdamUpdater_init w h lr wd) = 999 / 1000
     \<and> epsilon (BprAdamUpdater_init w h lr wd) = 1 / 10 ^ 8"
    by (simp add: BprAdamUpdater_init_def)
  have Wpart: "cell (M_W s') u k = adam_M_spec (beta1 s) (cell (M_W s) u k)
                 (- (x * (cell (H s) i k - cell (H s) j k) - weight_decay s * cell (W s) u k))"
    "cell (V_W s') u k = adam_V_spec (beta2 s) (cell (V_W s) u k)
                 (- (x * (cell (H s) i k - cell (H s) j k) - weight_decay s * cell (W s) u k))"
    "cell (W s') u k = adam_param_spec (alpha s) (beta1 s) (beta2 s) (epsilon s) (cell (W s) u k)
                 (cell (M_W s') u k) (cell (V_W s') u k)"
    by (simp_all only: cells update_step_W)
  have Hpart: "i \<noteq> j \<Longrightarrow>
       cell (M_H s') i k = adam_M_spec (beta1 s) (cell (M_H s) i k)
          (- (x * cell (W s) u k - weight_decay s * cell (H s) i k))
     \<and> cell (V_H s') i k = adam_V_spec (beta2 s) (cell (V_H s) i k)
          (- (x * cell (W s) u k - weight_decay s * cell (H s) i k))
     \<and> cell (H s') i k = adam_param_spec (alpha s) (beta1 s) (beta2 s) (epsilon s) (cell (H s) i k)
          (cell (M_H s') i k) (cell (V_H s') i k)
     \<and> cell (M_H s') j k = adam_M_spec (beta1 s) (cell (M_H s) j k)
          (- (x * (- cell (W s) u k) - weight_decay s * cell (H s) j k))
     \<and> cell (V_H s') j k = adam_V_spec (beta2 s) (cell (V_H s) j k)
          (- (x * (- cell (W s) u k) - weight_decay s * cell (H s) j k))
     \<and> cell (H s') j k = adam_param_spec (alpha s) (beta1 s) (beta2 s) (epsilon s) (cell (H s) j k)
          (cell (M_H s') j k) (cell (V_H s') j k)"
    using update_step_H [of i j u x k s] by (simp add: cells)
  have Halias: "i = j \<Longrightarrow>
       cell (M_H s') i k = adam_M_spec (beta1 s)
          (adam_M_spec (beta1 s) (cell (M_H s) i k)
             (- (x * cell (W s) u k - weight_decay s * cell (H s) i k)))
          (- (x * (- cell (W s) u k) - weight_decay s * cell (H s) j k))
     \<and> cell (V_H s') i k = adam_V_spec (beta2 s)
          (adam_V_spec (beta2 s) (cell (V_H s) i k)
             (- (x * cell (W s) u k - weight_decay s * cell (H s) i k)))
          (- (x * (- cell (W s) u k) - weight_decay s * cell (H s) j k))
     \<and> cell (H s') i k = adam_param_spec (alpha s) (beta1 s) (beta2 s) (epsilon s)
          (adam_param_spec (alpha s) (beta1 s) (beta2 s) (epsilon s) (cell (H s) i k)
             (cell (M_H s') i k) (cell (V_H s') i k))
          (cell (M_H s') i k) (cell (V_H s') i k)"
    using update_step_H_alias [of u i x k s] by (simp add: cells)
  show ?thesis
    unfolding g s'_def [symmetric] Let_def prod.case
    using init scal Wpart Hpart Halias by blast
qed


theorem adam_update_rule_witness:
  "ncols (H (BprAdamUpdater_init (mput (np_zeros 1 1) 0 0 1) (np_zeros 2 1) 1 1))
     = ncols (W (BprAdamUpdater_init (mput (np_zeros 1 1) 0 0 1) (np_zeros 2 1) 1 1))
   \<and> 0 < ncols (W (BprAdamUpdater_init (mput (np_zeros 1 1) 0 0 1) (np_zeros 2 1) 1 1))
   \<and> (0::nat) \<noteq> 1
   \<and> cell (M_W (fst (loss (BprAdamUpdater_init (mput (np_zeros 1 1) 0 0 1) (np_zeros 2 1) 1 1)
                        0 0 1 True))) 0 0 = 1 / 10
   \<and> cell (V_W (fst (loss (BprAdamUpdater_init (mput (np_zeros 1 1) 0 0 1) (np_zeros 2 1) 1 1)
                        0 0 1 True))) 0 0 = 1 / 1000
   \<and> cell (M_H (fst (loss (BprAdamUpdater_init (mput (np_zeros 1 1) 0 0 1) (np_zeros 2 1) 1 1)
                        0 0 1 True))) 0 0 = - 1 / 20
   \<and> cell (M_H (fst (loss (BprAdamUpdater_init (mput (np_zeros 1 1) 0 0 1) (np_zeros 2 1) 1 1)
                        0 0 1 True))) 1 0 = 1 / 20
   \<and> cell (M_H (fst (loss (BprAdamUpdater_init (mput (np_zeros 1 1) 0 0 1) (np_zeros 2 1) 1 1)
                        0 0 0 True))) 0 0 = 1 / 200"
proof -
  let ?s = "BprAdamUpdater_init (mput (np_zeros 1 1) 0 0 1) (np_zeros 2 1) 1 1"
  have shape: "ncols (H ?s) = ncols (W ?s)" "0 < ncols (W ?s)"
    by (simp_all add: BprAdamUpdater_init_def np_zeros_def mput_def)
  have g1: "bpr_gradients_spec ?s 0 0 1 0 = (1, - 1 / 2, 1 / 2)"
    and g0: "bpr_gradients_spec ?s 0 0 0 0 = (1, - 1 / 2, 1 / 2)"
    by (simp_all add: bpr_gradients_spec_def Let_def BprAdamUpdater_init_def np_zeros_def mput_def
        dot_def row_def sigmoid_def)
  have vals: "beta1 ?s = 9 / 10" "beta2 ?s = 999 / 1000" "cell (M_W ?s) 0 0 = 0"
    "cell (V_W ?s) 0 0 = 0" "cell (M_H ?s) 0 0 = 0" "cell (M_H ?s) 1 0 = 0"
    by (simp_all add: BprAdamUpdater_init_def np_zeros_def)
  show ?thesis
    using shape adam_update_rule [OF shape, where u = 0 and i = 0 and j = 1]
      adam_update_rule [OF shape, where u = 0 and i = 0 and j = 0]
    unfolding g1 g0 Let_def prod.case vals
    by (simp add: adam_M_spec_def adam_V_spec_def)
qed

section \<open>Properties of the negative sampler and of \<^verbatim>\<open>fit_bpr\<close>\<close>

lemma ebind_Inr_iff: "ebind r f = Inr y \<longleftrightarrow> (\<exists>x. r = Inr x \<and> f x = Inr y)"
  by (cases r) (simp_all add: ebind_def)

lemma ebind_Inl [simp]: "ebind (Inl e) f = Inl e"
  by (simp add: ebind_def)

lemma ebind_Inr [simp]: "ebind (Inr x) f = f x"
  by (simp add: ebind_def)

lemma set_candidates: "set (candidates X u) = {j. j < ncols X \<and> cell X u j \<noteq> 1}"
  by (auto simp: candidates_def)

lemma distinct_candidates: "distinct (candidates X u)"
  by (simp add: candidates_def)

lemma random_choice_Inr:
  assumes "random_choice rng pos a n = Inr ns"
  shows "ns = map (\<lambda>t. a ! (rng (pos + t) mod length a)) [0..<n]" and "n \<noteq> 0 \<Longrightarrow> a \<noteq> []"
  using assms by (auto simp: random_choice_def split: if_splits)

lemma sample_negatives_Inr:
  assumes "sample_negatives rng X n pos users = Inr negatives"
  shows "length negatives = length users
    \<and> (\<forall>l<length users.
          users ! l < nrows X
        \<and> (n \<noteq> 0 \<longrightarrow> candidates X (users ! l) \<noteq> [])
        \<and> negatives ! l =
            map (\<lambda>t. candidates X (users ! l)
                       ! (rng (pos + l * n + t) mod length (candidates X (users ! l)))) [0..<n])"
  using assms
proof (induction users arbitrary: pos negatives)
  case Nil
  then show ?case by simp
next
  case (Cons u us)
  from Cons.prems obtain ns rest where u: "u < nrows X"
    and ns: "random_choice rng pos (candidates X u) n = Inr ns"
    and rest: "sample_negatives rng X n (pos + n) us = Inr rest"
    and negs: "negatives = ns # rest"
    by (auto simp: ebind_Inr_iff split: if_splits)
  note IH = Cons.IH [OF rest]
  show ?case
  proof (intro conjI allI impI)
    show "length negatives = length (u # us)" using IH negs by simp
  next
    fix l assume l: "l < length (u # us)"
    show "(u # us) ! l < nrows X"
      using l u IH by (cases l) simp_all
    show "candidates X ((u # us) ! l) \<noteq> []" if "n \<noteq> 0"
      using l that random_choice_Inr(2) [OF ns] IH by (cases l) simp_all
    show "negatives ! l =
            map (\<lambda>t. candidates X ((u # us) ! l)
                       ! (rng (pos + l * n + t) mod length (candidates X ((u # us) ! l)))) [0..<n]"
    proof (cases l)
      case 0
      then show ?thesis using negs random_choice_Inr(1) [OF ns] by simp
    next
      case (Suc l')
      then have "l' < length us" using l by simp
      with IH have "rest ! l' =
            map (\<lambda>t. candidates X (us ! l')
                       ! (rng (pos + n + l' * n + t) mod length (candidates X (us ! l')))) [0..<n]"
        by simp
      then show ?thesis using Suc negs by (simp add: add.assoc add.commute add.left_commute)
    qed
  qed
qed

lemma sample_negatives_entry:
  assumes "sample_negatives rng X n pos users = Inr negatives"
    and "l < length users" and "t < n"
  shows "length negatives = length users" and "length (negatives ! l) = n"
    and "negatives ! l ! t
        = candidates X (users ! l)
            ! (rng (pos + l * n + t) mod length (candidates X (users ! l)))"
    and "rng (pos + l * n + t) mod length (candidates X (users ! l))
        < length (candidates X (users ! l))"
    and "negatives ! l ! t < ncols X" and "cell X (users ! l) (negatives ! l ! t) \<noteq> 1"
proof -
  let ?c = "candidates X (users ! l)"
  let ?r = "rng (pos + l * n + t) mod length ?c"
  from sample_negatives_Inr [OF assms(1)] assms(2)
  have ne: "n \<noteq> 0 \<longrightarrow> ?c \<noteq> []"
    and row: "negatives ! l = map (\<lambda>t. ?c ! (rng (pos + l * n + t) mod length ?c)) [0..<n]"
    by simp_all
  show "length negatives = length users"
    using sample_negatives_Inr [OF assms(1)] by simp
  show "length (negatives ! l) = n" using row by simp
  show r: "?r < length ?c" using ne assms(3) by simp
  show at: "negatives ! l ! t = ?c ! ?r" using row assms(3) by simp
  have "negatives ! l ! t \<in> set ?c" using at r by simp
  then show "negatives ! l ! t < ncols X" and "cell X (users ! l) (negatives ! l ! t) \<noteq> 1"
    by (simp_all add: set_candidates)
qed

lemma negative_of_binary_row:
  assumes "sample_negatives rng X n pos users = Inr negatives"
    and "l < length users" and "t < n"
    and "\<forall>j<ncols X. cell X (users ! l) j = 0 \<or> cell X (users ! l) j = 1"
  shows "cell X (users ! l) (negatives ! l ! t) = 0"
  using sample_negatives_entry(5,6) [OF assms(1-3)] assms(4) by blast

text \<open>
  C2. The sampler draws among the columns whose entry in the user's row is not 1. These
  are the items without interaction on a row of zeros and ones only. On the row \<open>[2, 0]\<close>
  the only sample is user 0 with item 0, the candidates are items 0 and 1, and a generator
  that draws position 0 makes item 0, the positive item of the sample, its negative.
\<close>

theorem negative_is_a_positive_item:
  "nonzero (mput (np_zeros 1 2) 0 0 2) = [(0, 0)]
   \<and> candidates (mput (np_zeros 1 2) 0 0 2) 0 = [0, 1]
   \<and> sample_negatives first_draw (mput (np_zeros 1 2) 0 0 2) 1 0 [0] = Inr [[0]]
   \<and> cell (mput (np_zeros 1 2) 0 0 2) 0 0 \<noteq> 0"
  by (simp add: nonzero_def candidates_def random_choice_def mput_def np_zeros_def
      first_draw_def upt_rec [of 0] upt_rec [of "Suc 0"])

lemma sample_negatives_Inl:
  assumes "sample_negatives rng X n pos users = Inl e" and "\<forall>u\<in>set users. u < nrows X"
  shows "e = ValueError"
  using assms
proof (induction users arbitrary: pos)
  case Nil
  then show ?case by simp
next
  case (Cons u us)
  show ?case
  proof (cases "random_choice rng pos (candidates X u) n")
    case (Inl e')
    then have "e' = ValueError" by (auto simp: random_choice_def split: if_splits)
    with Inl Cons.prems show ?thesis by simp
  next
    case (Inr ns)
    with Cons.prems have "sample_negatives rng X n (pos + n) us = Inl e"
      by (cases "sample_negatives rng X n (pos + n) us") simp_all
    with Cons show ?thesis by simp
  qed
qed

lemma sample_negatives_succeeds:
  assumes "\<forall>l<length users. users ! l < nrows X \<and> candidates X (users ! l) \<noteq> []"
  shows "\<exists>negatives. sample_negatives rng X n pos users = Inr negatives"
  using assms
proof (induction users arbitrary: pos)
  case Nil
  then show ?case by simp
next
  case (Cons u us)
  from Cons.prems have u: "u < nrows X" "candidates X u \<noteq> []" by auto
  from Cons.prems have "\<forall>l<length us. us ! l < nrows X \<and> candidates X (us ! l) \<noteq> []"
    by auto
  from Cons.IH [OF this] obtain rest where "sample_negatives rng X n (pos + n) us = Inr rest"
    by blast
  with u show ?case by (simp add: random_choice_def)
qed

lemma update_step_shapes: "shapes (update_step u i j x k s) = shapes s"
  by (simp add: shapes_def update_step_def Let_def)

lemma fold_update_step_shapes: "shapes (fold (update_step u i j x) ks s) = shapes s"
  by (induction ks arbitrary: s) (simp_all add: update_step_shapes)

lemma loss_shapes: "shapes (fst (loss s u i j b)) = shapes s"
  by (simp add: loss_def Let_def fold_update_step_shapes split: prod.splits)

lemma run_pass_Inr:
  "run_pass b us ps negs it ls (s, buf) = Inr (s', buf') \<Longrightarrow>
     shapes s' = shapes s \<and> length buf' = length buf \<and> (\<forall>l\<in>set ls. l < length buf)"
proof (induction ls arbitrary: s buf)
  case Nil
  then show ?case by simp
next
  case (Cons l ls)
  obtain s1 v where lv: "loss s (us ! l) (ps ! l) (negs ! l ! it) b = (s1, v)"
    by (cases "loss s (us ! l) (ps ! l) (negs ! l ! it) b")
  from Cons.prems lv have l: "l < length buf"
    and rest: "run_pass b us ps negs it ls (s1, buf[l := v]) = Inr (s', buf')"
    by (auto split: if_splits)
  have "shapes s1 = shapes s" using loss_shapes [of s "us ! l" "ps ! l" "negs ! l ! it" b] lv
    by simp
  with Cons.IH [OF rest] l show ?case by simp
qed

lemma run_pass_succeeds:
  assumes "reads_in_range (shapes s) us ps negs it ls" and "\<forall>l\<in>set ls. l < length buf"
  shows "\<exists>s' buf'. run_pass b us ps negs it ls (s, buf) = Inr (s', buf')"
  using assms
proof (induction ls arbitrary: s buf)
  case Nil
  then show ?case by simp
next
  case (Cons l ls)
  obtain s1 v where lv: "loss s (us ! l) (ps ! l) (negs ! l ! it) b = (s1, v)"
    by (cases "loss s (us ! l) (ps ! l) (negs ! l ! it) b")
  have sh: "shapes s1 = shapes s" using loss_shapes [of s "us ! l" "ps ! l" "negs ! l ! it" b] lv
    by simp
  from Cons.prems(1) have here: "l < length us \<and> l < length ps \<and> l < length negs
      \<and> it < length (negs ! l) \<and> us ! l < nrows (W s) \<and> ps ! l < nrows (H s)
      \<and> negs ! l ! it < nrows (H s) \<and> ncols (W s) \<le> ncols (H s)"
    by (simp add: reads_in_range_def shapes_def)
  from Cons.prems(1) have "reads_in_range (shapes s1) us ps negs it ls"
    by (simp add: reads_in_range_def sh split: prod.splits)
  moreover from Cons.prems(2) have "\<forall>l'\<in>set ls. l' < length (buf[l := v])" by simp
  ultimately obtain s' buf' where
    "run_pass b us ps negs it ls (s1, buf[l := v]) = Inr (s', buf')"
    using Cons.IH by blast
  with here lv Cons.prems(2) show ?case by simp
qed

lemma run_pass_write_fault:
  assumes "reads_in_range (shapes s) us ps negs it ls" and "\<exists>l\<in>set ls. length buf \<le> l"
  shows "run_pass b us ps negs it ls (s, buf) = Inl OutOfBoundsWrite"
  using assms
proof (induction ls arbitrary: s buf)
  case Nil
  then show ?case by simp
next
  case (Cons l ls)
  obtain s1 v where lv: "loss s (us ! l) (ps ! l) (negs ! l ! it) b = (s1, v)"
    by (cases "loss s (us ! l) (ps ! l) (negs ! l ! it) b")
  have sh: "shapes s1 = shapes s" using loss_shapes [of s "us ! l" "ps ! l" "negs ! l ! it" b] lv
    by simp
  from Cons.prems(1) have here: "l < length us \<and> l < length ps \<and> l < length negs
      \<and> it < length (negs ! l) \<and> us ! l < nrows (W s) \<and> ps ! l < nrows (H s)
      \<and> negs ! l ! it < nrows (H s) \<and> ncols (W s) \<le> ncols (H s)"
    by (simp add: reads_in_range_def shapes_def)
  show ?case
  proof (cases "l < length buf")
    case False
    with here lv show ?thesis by simp
  next
    case True
    from Cons.prems(1) have "reads_in_range (shapes s1) us ps negs it ls"
      by (simp add: reads_in_range_def sh split: prod.splits)
    moreover from Cons.prems(2) True have "\<exists>l'\<in>set ls. length (buf[l := v]) \<le> l'"
      by auto
    ultimately have "run_pass b us ps negs it ls (s1, buf[l := v]) = Inl OutOfBoundsWrite"
      by (rule Cons.IH)
    with here lv True show ?thesis by simp
  qed
qed

lemma loss_no_update: "loss s u i j False = (s, snd (loss s u i j False))"
  by (simp add: loss_def Let_def split: prod.splits)

lemma run_pass_no_update:
  assumes "reads_in_range (shapes s) us ps negs it ls" and "\<forall>l\<in>set ls. l < length buf"
  shows "run_pass False us ps negs it ls (s, buf)
    = Inr (s, fold (\<lambda>l b. b[l := snd (loss s (us ! l) (ps ! l) (negs ! l ! it) False)]) ls buf)"
  using assms
proof (induction ls arbitrary: buf)
  case Nil
  then show ?case by simp
next
  case (Cons l ls)
  define v where "v = snd (loss s (us ! l) (ps ! l) (negs ! l ! it) False)"
  have lv: "loss s (us ! l) (ps ! l) (negs ! l ! it) False = (s, v)"
    unfolding v_def by (rule loss_no_update)
  from Cons.prems(1) have here: "l < length us \<and> l < length ps \<and> l < length negs
      \<and> it < length (negs ! l) \<and> us ! l < nrows (W s) \<and> ps ! l < nrows (H s)
      \<and> negs ! l ! it < nrows (H s) \<and> ncols (W s) \<le> ncols (H s)"
    by (simp add: reads_in_range_def shapes_def)
  from Cons.prems(1) have "reads_in_range (shapes s) us ps negs it ls"
    by (simp add: reads_in_range_def split: prod.splits)
  moreover from Cons.prems(2) have "\<forall>l'\<in>set ls. l' < length (buf[l := v])" by simp
  ultimately have "run_pass False us ps negs it ls (s, buf[l := v])
    = Inr (s, fold (\<lambda>l b. b[l := snd (loss s (us ! l) (ps ! l) (negs ! l ! it) False)]) ls
             (buf[l := v]))"
    by (rule Cons.IH)
  moreover have "snd (loss s (us ! l) (ps ! l) (negs ! l ! it) False) = v"
    by (simp add: v_def)
  ultimately show ?case using here lv Cons.prems(2) by simp
qed

lemma fold_list_update_upt:
  "n \<le> length buf \<Longrightarrow>
   fold (\<lambda>l b. b[l := f l]) [0..<n] buf
     = map (\<lambda>l. if l < n then f l else buf ! l) [0..<length buf]"
proof (induction n)
  case 0
  then show ?case by (simp add: map_nth)
next
  case (Suc n)
  then have "fold (\<lambda>l b. b[l := f l]) [0..<Suc n] buf
      = (map (\<lambda>l. if l < n then f l else buf ! l) [0..<length buf])[n := f n]"
    by simp
  also have "\<dots> = map (\<lambda>l. if l < Suc n then f l else buf ! l) [0..<length buf]"
    by (rule nth_equalityI) (auto simp: nth_list_update less_Suc_eq)
  finally show ?case .
qed

lemma mean_loss_cases:
  "n = 0 \<Longrightarrow> mean_loss buf n = Inl ZeroDivisionError"
  "0 < n \<Longrightarrow> n \<le> length buf \<Longrightarrow> \<exists>m. mean_loss buf n = Inr m"
  "mean_loss buf n \<noteq> Inl OutOfBoundsWrite"
  by (simp_all add: mean_loss_def Let_def)

lemma ebind_Inl_iff:
  "ebind r f = Inl e \<longleftrightarrow> r = Inl e \<or> (\<exists>x. r = Inr x \<and> f x = Inl e)"
  by (cases r) (simp_all add: ebind_def)

lemma emap_Inl: "emap f xs = Inl e \<Longrightarrow> \<exists>x\<in>set xs. f x = Inl e"
  by (induction xs) (auto simp: ebind_Inl_iff)

lemma top_entry_Inl: "top_entry a X i j = Inl e \<Longrightarrow> e = OutOfBoundsRead"
  by (simp add: top_entry_def split: if_splits)

lemma recall_row_Inl: "recall_row a X k i = Inl e \<Longrightarrow> e = OutOfBoundsRead"
  by (auto simp: recall_row_def Let_def ebind_Inl_iff split: if_splits
      dest!: emap_Inl top_entry_Inl)

lemma ndcg_row_Inl: "ndcg_row a X k i = Inl e \<Longrightarrow> e = OutOfBoundsRead"
  by (auto simp: ndcg_row_def Let_def ebind_Inl_iff split: if_splits
      dest!: emap_Inl dest: top_entry_Inl)

lemma ap_row_Inl: "ap_row a X k i = Inl e \<Longrightarrow> e = OutOfBoundsRead"
  by (auto simp: ap_row_def ebind_Inl_iff split: prod.splits if_splits
      dest!: emap_Inl top_entry_Inl)

lemma evaluate_no_write_fault: "evaluate asort w h X ms \<noteq> Inl OutOfBoundsWrite"
proof
  assume "evaluate asort w h X ms = Inl OutOfBoundsWrite"
  then show False
    by (auto simp: evaluate_def np_dot_T_def Let_def ebind_Inl_iff split: if_splits
        dest!: emap_Inl dest: recall_row_Inl ndcg_row_Inl ap_row_Inl)
qed

lemma reads_from_inputs:
  assumes ok: "bpr_inputs_ok X w h users positives"
    and sn: "sample_negatives rng X n pos users = Inr negs"
    and it: "it < n"
    and sh: "shapes s = ((nrows w, ncols w), (nrows h, ncols h))"
  shows "reads_in_range (shapes s) users positives negs it [0..<length users]"
proof -
  have "l < length positives \<and> l < length negs \<and> it < length (negs ! l)
      \<and> users ! l < nrows w \<and> positives ! l < nrows h \<and> negs ! l ! it < nrows h"
    if l: "l < length users" for l
  proof -
    from sample_negatives_entry [OF sn l it]
    have "length negs = length users" "length (negs ! l) = n" "negs ! l ! it < ncols X"
      by simp_all
    with ok l it show ?thesis by (simp add: bpr_inputs_ok_def)
  qed
  moreover have "ncols w \<le> ncols h" using ok by (simp add: bpr_inputs_ok_def)
  ultimately show ?thesis by (simp add: reads_in_range_def sh)
qed

lemma epoch_no_samples:
  "epoch asort [] positives negatives valid X_test it st = Inl ZeroDivisionError"
  by (simp add: epoch_def mean_loss_def)

lemma epoch_past_buffer:
  assumes "reads_in_range (shapes (updater st)) users positives negatives it [0..<length users]"
    and "reads_in_range (shapes (updater st)) users_valid positives_valid negatives_valid it
           [0..<length users_valid]"
    and "length (loss_arr st) = length users" and "users \<noteq> []"
    and "length users < length users_valid"
  shows "epoch asort users positives negatives
           (Some (users_valid, positives_valid, negatives_valid)) X_test it st
         = Inl OutOfBoundsWrite"
proof -
  from run_pass_succeeds [OF assms(1), of "loss_arr st" True] assms(3)
  obtain s1 buf1 where tp: "run_pass True users positives negatives it [0..<length users]
      (updater st, loss_arr st) = Inr (s1, buf1)"
    by auto
  from run_pass_Inr [OF tp] assms(3)
  have s1: "shapes s1 = shapes (updater st)" and len: "length buf1 = length users"
    by simp_all
  with assms(4) obtain m where m: "mean_loss buf1 (length users) = Inr m"
    using mean_loss_cases(2) [of "length users" buf1] by auto
  have "run_pass False users_valid positives_valid negatives_valid it [0..<length users_valid]
      (s1, buf1) = Inl OutOfBoundsWrite"
    by (rule run_pass_write_fault) (use assms(2,5) s1 len in auto)
  with tp m show ?thesis by (simp add: epoch_def Let_def)
qed

lemma epoch_in_buffer:
  assumes "reads_in_range (shapes (updater st)) users positives negatives it [0..<length users]"
    and "length (loss_arr st) = length users"
    and "case valid of None \<Rightarrow> True
         | Some (uv, pv, nv) \<Rightarrow>
             reads_in_range (shapes (updater st)) uv pv nv it [0..<length uv]
             \<and> length uv \<le> length users"
  shows "epoch asort users positives negatives valid X_test it st \<noteq> Inl OutOfBoundsWrite
    \<and> (\<forall>st'. epoch asort users positives negatives valid X_test it st = Inr st' \<longrightarrow>
          shapes (updater st') = shapes (updater st)
          \<and> length (loss_arr st') = length users)"
proof -
  from run_pass_succeeds [OF assms(1), of "loss_arr st" True] assms(2)
  obtain s1 buf1 where tp: "run_pass True users positives negatives it [0..<length users]
      (updater st, loss_arr st) = Inr (s1, buf1)"
    by auto
  from run_pass_Inr [OF tp] assms(2)
  have s1: "shapes s1 = shapes (updater st)" and len: "length buf1 = length users"
    by simp_all
  show ?thesis
  proof (cases "users = []")
    case True
    then show ?thesis by (simp add: epoch_no_samples)
  next
    case False
    with len obtain m where m: "mean_loss buf1 (length users) = Inr m"
      using mean_loss_cases(2) [of "length users" buf1] by auto
    show ?thesis
    proof (cases valid)
      case None
      with tp m s1 len show ?thesis
        using evaluate_no_write_fault
        by (auto simp: epoch_def Let_def ebind_def split: option.splits sum.splits)
    next
      case (Some v)
      obtain uv pv nv where v: "v = (uv, pv, nv)" by (cases v)
      from assms(3) Some v
      have rv: "reads_in_range (shapes s1) uv pv nv it [0..<length uv]"
        and le: "length uv \<le> length users"
        by (simp_all add: s1)
      from run_pass_succeeds [OF rv, of buf1 False] le len
      obtain s2 buf2 where vp: "run_pass False uv pv nv it [0..<length uv] (s1, buf1)
          = Inr (s2, buf2)"
        by auto
      from run_pass_Inr [OF vp] s1 len
      have s2: "shapes s2 = shapes (updater st)" and len2: "length buf2 = length users"
        by simp_all
      have ml: "mean_loss buf2 (length uv) \<noteq> Inl OutOfBoundsWrite"
        by (rule mean_loss_cases(3))
      show ?thesis
        using tp m vp ml s2 len2 Some v evaluate_no_write_fault
        by (auto simp: epoch_def Let_def ebind_def split: option.splits sum.splits)
    qed
  qed
qed


lemma epochs_in_buffer:
  assumes "\<forall>it\<in>set its. reads_in_range sh users positives negatives it [0..<length users]"
    and "case valid of None \<Rightarrow> True
         | Some (uv, pv, nv) \<Rightarrow>
             (\<forall>it\<in>set its. reads_in_range sh uv pv nv it [0..<length uv])
             \<and> length uv \<le> length users"
    and "shapes (updater st) = sh" and "length (loss_arr st) = length users"
  shows "epochs asort users positives negatives valid X_test its st \<noteq> Inl OutOfBoundsWrite"
  using assms
proof (induction its arbitrary: st)
  case Nil
  then show ?case by simp
next
  case (Cons it its)
  have v: "case valid of None \<Rightarrow> True
         | Some (uv, pv, nv) \<Rightarrow>
             reads_in_range (shapes (updater st)) uv pv nv it [0..<length uv]
             \<and> length uv \<le> length users"
    using Cons.prems(2,3) by (auto split: option.splits)
  have r: "reads_in_range (shapes (updater st)) users positives negatives it [0..<length users]"
    using Cons.prems(1,3) by simp
  note e = epoch_in_buffer [OF r Cons.prems(4) v, of asort X_test]
  show ?case
  proof (cases "epoch asort users positives negatives valid X_test it st")
    case (Inl err)
    with e show ?thesis by auto
  next
    case (Inr st')
    with e have inv: "shapes (updater st') = sh" "length (loss_arr st') = length users"
      using Cons.prems(3) by simp_all
    have "epochs asort users positives negatives valid X_test its st' \<noteq> Inl OutOfBoundsWrite"
      by (rule Cons.IH) (use Cons.prems(1,2) inv in \<open>auto split: option.splits\<close>)
    with Inr show ?thesis by simp
  qed
qed

lemma shapes_init:
  "shapes (BprAdamUpdater_init w h lr wd) = ((nrows w, ncols w), (nrows h, ncols h))"
  by (simp add: shapes_def BprAdamUpdater_init_def)

lemma upt_first: "0 < n \<Longrightarrow> [0..<n] = 0 # [1..<n]"
  by (simp add: upt_rec)

text \<open>
  C9. The loss buffer has one entry for each training sample and the validation pass
  writes the loss of validation sample \<open>l\<close> into it at index \<open>l\<close>, leaving the other entries
  as the training pass left them. For a well-formed call that runs at least one epoch on
  at least one training sample, a write of \<^verbatim>\<open>fit_bpr\<close> falls outside the buffer exactly when
  the validation set has more samples than the training set. The second part is the
  validation pass alone, on any buffer: all its writes are inside the buffer, with the
  content above, if the buffer has an entry for every validation sample, and one of them is
  past its end otherwise.
\<close>

theorem validation_pass_past_loss_buffer:
  assumes "bpr_inputs_ok X w h users positives"
    and "bpr_inputs_ok X_valid w h users_valid positives_valid"
    and "0 < num_iterations" and "users \<noteq> []"
  shows "(fit_bpr rng asort users positives X (Some (users_valid, positives_valid, X_valid))
            X_test w h num_iterations lr wd = Inl OutOfBoundsWrite
          \<longleftrightarrow> length users < length users_valid)
    \<and> (\<forall>s buf negatives it.
          reads_in_range (shapes s) users_valid positives_valid negatives it
            [0..<length users_valid]
          \<longrightarrow> run_pass False users_valid positives_valid negatives it
                [0..<length users_valid] (s, buf)
              = (if length users_valid \<le> length buf
                 then Inr (s, map (\<lambda>l. if l < length users_valid
                                        then snd (loss s (users_valid ! l) (positives_valid ! l)
                                                    (negatives ! l ! it) False)
                                        else buf ! l) [0..<length buf])
                 else Inl OutOfBoundsWrite))"
proof -
  define n where "n = nat num_iterations"
  define st0 where "st0 = \<lparr>updater = BprAdamUpdater_init w h lr wd,
      loss_arr = replicate (length users) 0, metrics = [], history = []\<rparr>"
  define sh where "sh = ((nrows w, ncols w), (nrows h, ncols h))"
  have n: "0 < n" using assms(3) by (simp add: n_def)
  obtain negs where negs: "sample_negatives rng X n 0 users = Inr negs"
    using sample_negatives_succeeds [of users X rng n 0] assms(1)
    by (auto simp: bpr_inputs_ok_def)
  obtain negs_v where negs_v:
    "sample_negatives rng X_valid n (length users * n) users_valid = Inr negs_v"
    using sample_negatives_succeeds [of users_valid X_valid rng n "length users * n"] assms(2)
    by (auto simp: bpr_inputs_ok_def)
  have st0: "shapes (updater st0) = sh" "length (loss_arr st0) = length users"
    by (simp_all add: st0_def sh_def shapes_init)
  have rt: "reads_in_range sh users positives negs it [0..<length users]" if "it < n" for it
    using reads_from_inputs [OF assms(1) negs that, of "updater st0"] st0(1)
    by (simp add: sh_def)
  have rv: "reads_in_range sh users_valid positives_valid negs_v it [0..<length users_valid]"
    if "it < n" for it
    using reads_from_inputs [OF assms(2) negs_v that, of "updater st0"] st0(1)
    by (simp add: sh_def)
  have fit: "fit_bpr rng asort users positives X (Some (users_valid, positives_valid, X_valid))
           X_test w h num_iterations lr wd
      = ebind (epochs asort users positives negs
                 (Some (users_valid, positives_valid, negs_v)) X_test [0..<n] st0)
          (\<lambda>st. Inr (history st))"
    using assms(3) negs negs_v by (simp add: fit_bpr_def Let_def n_def [symmetric] st0_def)
  have whole: "fit_bpr rng asort users positives X
        (Some (users_valid, positives_valid, X_valid)) X_test w h num_iterations lr wd
      = Inl OutOfBoundsWrite \<longleftrightarrow> length users < length users_valid"
  proof (cases "length users < length users_valid")
    case True
    have "epoch asort users positives negs (Some (users_valid, positives_valid, negs_v))
            X_test 0 st0 = Inl OutOfBoundsWrite"
      by (rule epoch_past_buffer) (use rt [OF n] rv [OF n] st0 assms(4) True in simp_all)
    then show ?thesis using True by (simp add: fit upt_first [OF n])
  next
    case False
    have "epochs asort users positives negs (Some (users_valid, positives_valid, negs_v))
            X_test [0..<n] st0 \<noteq> Inl OutOfBoundsWrite"
      by (rule epochs_in_buffer [where sh = sh]) (use rt rv st0 False in auto)
    then show ?thesis using False by (auto simp: fit ebind_def split: sum.splits)
  qed
  have pass: "run_pass False users_valid positives_valid negatives it
        [0..<length users_valid] (s, buf)
      = (if length users_valid \<le> length buf
         then Inr (s, map (\<lambda>l. if l < length users_valid
                                then snd (loss s (users_valid ! l) (positives_valid ! l)
                                            (negatives ! l ! it) False)
                                else buf ! l) [0..<length buf])
         else Inl OutOfBoundsWrite)"
    if r: "reads_in_range (shapes s) users_valid positives_valid negatives it
        [0..<length users_valid]" for s buf negatives it
  proof (cases "length users_valid \<le> length buf")
    case True
    then have "\<forall>l\<in>set [0..<length users_valid]. l < length buf" by simp
    from run_pass_no_update [OF r this] True show ?thesis
      by (simp add: fold_list_update_upt)
  next
    case False
    then have "\<exists>l\<in>set [0..<length users_valid]. length buf \<le> l"
      by (intro bexI [of _ "length buf"]) simp_all
    from run_pass_write_fault [OF r this] False show ?thesis by simp
  qed
  from whole pass show ?thesis by blast
qed

theorem validation_pass_past_loss_buffer_witness:
  "bpr_inputs_ok (mput (np_zeros 2 2) 0 0 1) (np_zeros 2 1) (np_zeros 2 1) [0] [0]
   \<and> bpr_inputs_ok (mput (mput (np_zeros 2 2) 0 1 1) 1 0 1) (np_zeros 2 1) (np_zeros 2 1)
        [0, 1] [1, 0]
   \<and> (0::int) < 1 \<and> [0::nat] \<noteq> []
   \<and> length [0::nat] < length [0::nat, 1]
   \<and> fit_bpr first_draw insertion_argsort [0] [0] (mput (np_zeros 2 2) 0 0 1)
         (Some ([0, 1], [1, 0], mput (mput (np_zeros 2 2) 0 1 1) 1 0 1)) None
         (np_zeros 2 1) (np_zeros 2 1) 1 1 1 = Inl OutOfBoundsWrite
   \<and> reads_in_range (shapes (BprAdamUpdater_init (np_zeros 2 1) (np_zeros 2 1) 1 1))
        [0, 1] [1, 0] [[0], [0]] 0 [0..<length [0::nat, 1]]
   \<and> run_pass False [0, 1] [1, 0] [[0], [0]] 0 [0..<length [0::nat, 1]]
        (BprAdamUpdater_init (np_zeros 2 1) (np_zeros 2 1) 1 1, [0])
       = Inl OutOfBoundsWrite"
proof -
  define s0 where "s0 = BprAdamUpdater_init (np_zeros 2 1) (np_zeros 2 1) 1 1"
  have ok: "bpr_inputs_ok (mput (np_zeros 2 2) 0 0 1) (np_zeros 2 1) (np_zeros 2 1) [0] [0]"
    by (simp add: bpr_inputs_ok_def candidates_def mput_def np_zeros_def upt_rec [of 0])
  have okv: "bpr_inputs_ok (mput (mput (np_zeros 2 2) 0 1 1) 1 0 1) (np_zeros 2 1)
      (np_zeros 2 1) [0, 1] [1, 0]"
    by (simp add: bpr_inputs_ok_def candidates_def mput_def np_zeros_def upt_rec [of 0]
        All_less_Suc)
  have d: "(0::int) < 1" and e: "[0::nat] \<noteq> []" by simp_all
  have r: "reads_in_range (shapes s0) [0, 1] [1, 0] [[0], [0]] 0 [0..<length [0::nat, 1]]"
    by (simp add: s0_def reads_in_range_def shapes_init np_zeros_def)
  note t = validation_pass_past_loss_buffer [OF ok okv d e,
      where rng = first_draw and asort = insertion_argsort and X_test = None
        and lr = 1 and wd = 1]
  from t have whole: "fit_bpr first_draw insertion_argsort [0] [0] (mput (np_zeros 2 2) 0 0 1)
         (Some ([0, 1], [1, 0], mput (mput (np_zeros 2 2) 0 1 1) 1 0 1)) None
         (np_zeros 2 1) (np_zeros 2 1) 1 1 1 = Inl OutOfBoundsWrite"
    by simp
  from t have "reads_in_range (shapes s0) [0, 1] [1, 0] [[0], [0]] 0 [0..<length [0::nat, 1]]
      \<longrightarrow> run_pass False [0, 1] [1, 0] [[0], [0]] 0 [0..<length [0::nat, 1]] (s0, [0])
        = (if length [0::nat, 1] \<le> length [0::real]
           then Inr (s0, map (\<lambda>l. if l < length [0::nat, 1]
                                   then snd (loss s0 ([0, 1] ! l) ([1, 0] ! l)
                                               ([[0], [0]] ! l ! 0) False)
                                   else [0] ! l) [0..<length [0::real]])
           else Inl OutOfBoundsWrite)"
    by blast
  with r have pass: "run_pass False [0, 1] [1, 0] [[0], [0]] 0 [0..<length [0::nat, 1]]
      (s0, [0]) = Inl OutOfBoundsWrite"
    by simp
  from ok okv d e whole r pass show ?thesis
    unfolding s0_def by (intro conjI) simp_all
qed

text \<open>
  A row leaves the sampler without candidate when all its entries are 1. With a training
  sample on such a row and at least one epoch planned, the precomputation of the negatives
  raises ValueError and so does \<^verbatim>\<open>fit_bpr\<close>, before any epoch runs.
\<close>

lemma row_of_ones_halts_fit:
  assumes "0 < num_iterations" and "\<forall>u\<in>set users. u < nrows X"
    and "l < length users" and "\<forall>j<ncols X. cell X (users ! l) j = 1"
  shows "sample_negatives rng X (nat num_iterations) 0 users = Inl ValueError
    \<and> fit_bpr rng asort users positives X valid X_test w h num_iterations lr wd
        = Inl ValueError"
proof -
  have none: "candidates X (users ! l) = []"
    using assms(4) by (simp add: candidates_def filter_empty_conv)
  have sn: "sample_negatives rng X (nat num_iterations) 0 users = Inl ValueError"
  proof (cases "sample_negatives rng X (nat num_iterations) 0 users")
    case (Inl e)
    with sample_negatives_Inl [OF Inl assms(2)] show ?thesis by simp
  next
    case (Inr negs)
    from sample_negatives_Inr [OF Inr] assms(1,3) none show ?thesis by auto
  qed
  then show ?thesis using assms(1) by (simp add: fit_bpr_def Let_def)
qed

lemma fit_bpr_no_samples:
  assumes "0 < num_iterations"
  shows "fit_bpr rng asort [] positives X None X_test w h num_iterations lr wd
         = Inl ZeroDivisionError"
  using assms by (simp add: fit_bpr_def Let_def upt_first epoch_no_samples)

lemma loss_zero:
  "loss (BprAdamUpdater_init (np_zeros 1 1) (np_zeros 2 1) lr wd) u i j True
    = (BprAdamUpdater_init (np_zeros 1 1) (np_zeros 2 1) lr wd, ln 2)"
  by (simp add: loss_def Let_def forward_step_def update_step_def sigmoid_def ln_div
      BprAdamUpdater_init_def np_zeros_def square_def
      assign_M_W_def assign_M_H_def assign_V_W_def assign_V_H_def assign_W_def assign_H_def
      mput_def fun_eq_iff)

text \<open>
  C7. A row without zero entry leaves no item for a negative, but the sampler looks for
  entries other than 1: user 0 has interacted with both items (row \<open>[2, 2]\<close>, samples
  \<open>(0, 0)\<close> and \<open>(0, 1)\<close>), and \<^verbatim>\<open>fit_bpr\<close> raises nothing, draws item 0 as the negative of
  both samples and returns the history of its epoch.
\<close>

theorem fit_proceeds_without_zero_entry:
  "nonzero (mput (mput (np_zeros 1 2) 0 0 2) 0 1 2) = [(0, 0), (0, 1)]
   \<and> cell (mput (mput (np_zeros 1 2) 0 0 2) 0 1 2) 0 0 \<noteq> 0
   \<and> cell (mput (mput (np_zeros 1 2) 0 0 2) 0 1 2) 0 1 \<noteq> 0
   \<and> sample_negatives first_draw (mput (mput (np_zeros 1 2) 0 0 2) 0 1 2) 1 0 [0, 0]
       = Inr [[0], [0]]
   \<and> fit_bpr first_draw insertion_argsort [0, 0] [0, 1] (mput (mput (np_zeros 1 2) 0 0 2) 0 1 2)
       None None (np_zeros 1 1) (np_zeros 2 1) 1 1 1 = Inr [[(''loss'', ln 2)]]"
proof -
  define s0 where "s0 = BprAdamUpdater_init (np_zeros 1 1) (np_zeros 2 1) 1 1"
  have init: "nrows (W s0) = 1" "nrows (H s0) = 2" "ncols (W s0) = 1" "ncols (H s0) = 1"
    by (simp_all add: s0_def BprAdamUpdater_init_def np_zeros_def)
  have l0: "loss s0 u i j True = (s0, ln 2)" for u i j
    unfolding s0_def by (rule loss_zero)
  have pass: "run_pass True [0, 0] [0, 1] [[0], [0]] 0 [0, 1] (s0, [0, 0])
      = Inr (s0, [ln 2, ln 2])"
    by (simp add: init l0)
  have upt2: "[0..<2] = [0, 1]" by (simp add: upt_rec)
  have mean: "mean_loss [ln 2, ln 2] 2 = Inr (ln 2)"
    by (simp add: mean_loss_def upt2)
  have rep: "replicate 2 (0::real) = [0, 0]" by (simp add: numeral_2_eq_2)
  have "epoch insertion_argsort [0, 0] [0, 1] [[0], [0]] None None 0
          \<lparr>updater = s0, loss_arr = [0, 0], metrics = [], history = []\<rparr>
        = Inr \<lparr>updater = s0, loss_arr = [ln 2, ln 2], metrics = [(''loss'', ln 2)],
               history = [[(''loss'', ln 2)]]\<rparr>"
    unfolding epoch_def Let_def by (simp add: upt2 init l0 mean_loss_def upt_rec [of 0])
  then have "fit_bpr first_draw insertion_argsort [0, 0] [0, 1]
       (mput (mput (np_zeros 1 2) 0 0 2) 0 1 2)
       None None (np_zeros 1 1) (np_zeros 2 1) 1 1 1 = Inr [[(''loss'', ln 2)]]"
    unfolding fit_bpr_def Let_def s0_def [symmetric]
    by (simp add: rep upt_rec [of 0] candidates_def random_choice_def mput_def np_zeros_def
        first_draw_def)
  then show ?thesis
    by (simp add: nonzero_def candidates_def random_choice_def first_draw_def mput_def
        np_zeros_def upt_rec [of 0] upt_rec [of "Suc 0"])
qed

section \<open>Properties of the evaluator's ranking\<close>

lemma is_argsort_basic:
  assumes "is_argsort asort xs"
  shows "length (asort xs) = length xs" "set (asort xs) = {..<length xs}"
    "distinct (asort xs)"
proof -
  from assms show d: "distinct (asort xs)" and s: "set (asort xs) = {..<length xs}"
    by (auto simp: is_argsort_def)
  from d have "length (asort xs) = card (set (asort xs))" by (simp add: distinct_card)
  with s show "length (asort xs) = length xs" by simp
qed

lemma is_argsort_ascending:
  assumes "is_argsort asort xs" and "p \<le> q" and "q < length xs"
  shows "xs ! (asort xs ! p) \<le> xs ! (asort xs ! q)"
proof -
  have "sorted (map (\<lambda>i. xs ! i) (asort xs))"
    using assms(1) by (simp add: is_argsort_def)
  then show ?thesis
    using assms(2,3) by (simp add: sorted_iff_nth_mono is_argsort_basic(1) [OF assms(1)])
qed

lemma insertion_argsort_is_argsort: "is_argsort insertion_argsort xs"
  by (simp add: is_argsort_def insertion_argsort_def)

lemma filter_keeps_order:
  assumes "sorted_wrt R (filter P ys)" and "p < q" and "q < length ys"
    and "P (ys ! p)" and "P (ys ! q)"
  shows "R (ys ! p) (ys ! q)"
proof -
  have p: "p < length ys" using assms(2,3) by simp
  have "ys = take q ys @ ys ! q # drop (Suc q) ys"
    using assms(3) by (rule id_take_nth_drop)
  moreover have "take q ys = take p (take q ys) @ take q ys ! p # drop (Suc p) (take q ys)"
    by (rule id_take_nth_drop) (use assms(2,3) in simp)
  moreover have "take q ys ! p = ys ! p" using assms(2) by simp
  ultimately have "ys = (take p (take q ys) @ ys ! p # drop (Suc p) (take q ys))
      @ ys ! q # drop (Suc q) ys"
    by simp
  then have "filter P ys = (filter P (take p (take q ys)) @ ys ! p
      # filter P (drop (Suc p) (take q ys))) @ ys ! q # filter P (drop (Suc q) ys)"
    using assms(4,5) by (metis filter.simps(2) filter_append)
  with assms(1) show ?thesis
    by (simp add: sorted_wrt_append)
qed

lemma insertion_argsort_ties: "ties_ascending insertion_argsort xs"
  unfolding ties_ascending_def
proof (intro allI impI)
  fix q p
  assume q: "q < length (insertion_argsort xs)" and p: "p < q"
    and eq: "xs ! (insertion_argsort xs ! p) = xs ! (insertion_argsort xs ! q)"
  let ?k = "xs ! (insertion_argsort xs ! q)"
  have "filter (\<lambda>i. xs ! i = ?k) (insertion_argsort xs)
      = filter (\<lambda>i. xs ! i = ?k) [0..<length xs]"
    unfolding insertion_argsort_def by (rule sort_key_stable)
  moreover have "sorted_wrt (<) (filter (\<lambda>i. xs ! i = ?k) [0..<length xs])"
    by (rule sorted_wrt_filter) (simp add: sorted_wrt_upt)
  ultimately have "sorted_wrt (<) (filter (\<lambda>i. xs ! i = ?k) (insertion_argsort xs))" by simp
  then show "insertion_argsort xs ! p < insertion_argsort xs ! q"
    by (rule filter_keeps_order) (use p q eq in simp_all)
qed

lemma top_nth:
  assumes "is_argsort asort xs" and "a < min k (length xs)"
  shows "take k (rev (asort xs)) ! a = asort xs ! (length xs - Suc a)"
  using assms(2) by (simp add: rev_nth is_argsort_basic(1) [OF assms(1)])

text \<open>
  C8, as the code has it. The list of a row is the first ten entries of the reversed
  ascending \<^verbatim>\<open>argsort\<close>, whatever sort numpy runs: distinct columns, ten of them or all the
  columns of a shorter row, ordered by descending score, every column left out scoring no
  more than any column in the list. Columns with equal scores come in the reverse of the
  order in which the ascending sort leaves them: in descending order of index if that sort
  leaves them in ascending order of index, as a stable sort does.
\<close>

theorem top_ten_order:
  assumes "r < nrows scores" and "is_argsort asort (row scores r)"
  shows "(let best = argsorted_scores asort scores ! r in
      best = take 10 (rev (asort (row scores r)))
    \<and> length best = min 10 (ncols scores) \<and> distinct best \<and> set best \<subseteq> {..<ncols scores}
    \<and> (\<forall>a b. a < b \<and> b < length best \<longrightarrow>
          cell scores r (best ! b) \<le> cell scores r (best ! a))
    \<and> (\<forall>i<ncols scores. i \<notin> set best \<longrightarrow>
          (\<forall>j\<in>set best. cell scores r i \<le> cell scores r j))
    \<and> (ties_ascending asort (row scores r) \<longrightarrow>
         (\<forall>a b. a < b \<and> b < length best
                \<and> cell scores r (best ! b) = cell scores r (best ! a)
            \<longrightarrow> best ! b < best ! a)))"
proof -
  define xs where "xs = row scores r"
  define best where "best = argsorted_scores asort scores ! r"
  let ?as = "asort xs"
  have ia: "is_argsort asort xs" using assms(2) by (simp add: xs_def)
  note basic = is_argsort_basic [OF ia]
  have n: "length xs = ncols scores" by (simp add: xs_def row_def)
  have xs: "xs ! i = cell scores r i" if "i < ncols scores" for i
    using that by (simp add: xs_def row_def)
  have best: "best = take 10 (rev ?as)"
    using assms(1) by (simp add: best_def argsorted_scores_def xs_def)
  have len: "length best = min 10 (ncols scores)"
    by (simp add: best basic n)
  have dist: "distinct best" by (simp add: best basic distinct_take)
  have sub: "set best \<subseteq> {..<ncols scores}"
    using set_take_subset [of 10 "rev ?as"] by (simp add: best basic n)
  have nth: "best ! a = ?as ! (ncols scores - Suc a)" if "a < length best" for a
    using that top_nth [OF ia, of a 10] by (simp add: best n len basic)
  have in_range: "best ! a < ncols scores" if "a < length best" for a
    using that sub nth_mem by blast
  have order: "cell scores r (best ! b) \<le> cell scores r (best ! a)"
    if ab: "a < b" "b < length best" for a b
  proof -
    have a: "a < length best" using ab by simp
    have pq: "ncols scores - Suc b \<le> ncols scores - Suc a" "ncols scores - Suc a < length xs"
      using ab len n by arith+
    have "xs ! (?as ! (ncols scores - Suc b)) \<le> xs ! (?as ! (ncols scores - Suc a))"
      using ia pq by (rule is_argsort_ascending)
    then show ?thesis
      using nth [OF a] nth [OF ab(2)] xs [OF in_range [OF a]] xs [OF in_range [OF ab(2)]]
      by simp
  qed
  have ties: "best ! b < best ! a"
    if ta: "ties_ascending asort xs" and ab: "a < b" "b < length best"
      and eq: "cell scores r (best ! b) = cell scores r (best ! a)" for a b
  proof -
    have a: "a < length best" using ab by simp
    have pq: "ncols scores - Suc b < ncols scores - Suc a"
      "ncols scores - Suc a < length ?as"
      using ab len n basic(1) by arith+
    have "xs ! (?as ! (ncols scores - Suc b)) = xs ! (?as ! (ncols scores - Suc a))"
      using eq nth [OF a] nth [OF ab(2)] xs [OF in_range [OF a]] xs [OF in_range [OF ab(2)]]
      by simp
    with ta pq have "?as ! (ncols scores - Suc b) < ?as ! (ncols scores - Suc a)"
      unfolding ties_ascending_def by blast
    then show ?thesis using nth [OF a] nth [OF ab(2)] by simp
  qed
  have rest: "cell scores r i \<le> cell scores r j"
    if i: "i < ncols scores" "i \<notin> set best" and j: "j \<in> set best" for i j
  proof -
    from j obtain a where a: "a < length best" "best ! a = j"
      by (auto simp: in_set_conv_nth)
    from i(1) have "i \<in> set ?as" by (simp add: basic n)
    then obtain p where "p < length ?as" and pi: "?as ! p = i"
      by (auto simp: in_set_conv_nth)
    then have p: "p < ncols scores" "?as ! p = i"
      by (simp_all add: basic(1) n)
    have "p \<le> ncols scores - Suc a"
    proof (rule ccontr)
      assume "\<not> p \<le> ncols scores - Suc a"
      then have "ncols scores - Suc p < length best" using a(1) p(1) len by arith
      from nth [OF this] p have "best ! (ncols scores - Suc p) = i"
        by (simp add: Suc_diff_Suc)
      with \<open>ncols scores - Suc p < length best\<close> i(2) show False
        using nth_mem by blast
    qed
    moreover have "ncols scores - Suc a < length xs" using a(1) len n by arith
    ultimately have "xs ! (?as ! p) \<le> xs ! (?as ! (ncols scores - Suc a))"
      by (rule is_argsort_ascending [OF ia])
    then show ?thesis
      using p(2) nth [OF a(1)] a(2) xs [OF i(1)] xs [OF in_range [OF a(1)]] by simp
  qed
  show ?thesis
    unfolding Let_def best_def [symmetric] xs_def [symmetric]
    using best len dist sub order rest ties by blast
qed

theorem top_ten_order_witness:
  "0 < nrows (mput (mput (mput (np_zeros 1 3) 0 0 3) 0 1 5) 0 2 5)
   \<and> is_argsort insertion_argsort (row (mput (mput (mput (np_zeros 1 3) 0 0 3) 0 1 5) 0 2 5) 0)
   \<and> ties_ascending insertion_argsort
       (row (mput (mput (mput (np_zeros 1 3) 0 0 3) 0 1 5) 0 2 5) 0)
   \<and> argsorted_scores insertion_argsort (mput (mput (mput (np_zeros 1 3) 0 0 3) 0 1 5) 0 2 5) ! 0
       = [2, 1, 0]
   \<and> cell (mput (mput (mput (np_zeros 1 3) 0 0 3) 0 1 5) 0 2 5) 0 1
       = cell (mput (mput (mput (np_zeros 1 3) 0 0 3) 0 1 5) 0 2 5) 0 2
   \<and> cell (mput (mput (mput (np_zeros 1 3) 0 0 3) 0 1 5) 0 2 5) 0 0
       \<le> cell (mput (mput (mput (np_zeros 1 3) 0 0 3) 0 1 5) 0 2 5) 0 1
   \<and> argsorted_scores insertion_argsort (mput (mput (mput (np_zeros 1 3) 0 0 3) 0 1 5) 0 2 5)
         ! 0 ! 1
       < argsorted_scores insertion_argsort (mput (mput (mput (np_zeros 1 3) 0 0 3) 0 1 5) 0 2 5)
           ! 0 ! 0"
proof -
  define M where "M = mput (mput (mput (np_zeros 1 3) 0 0 3) 0 1 5) 0 2 5"
  define best where "best = argsorted_scores insertion_argsort M ! 0"
  have r: "0 < nrows M" by (simp add: M_def mput_def np_zeros_def)
  have ia: "is_argsort insertion_argsort (row M 0)" by (rule insertion_argsort_is_argsort)
  have ta: "ties_ascending insertion_argsort (row M 0)" by (rule insertion_argsort_ties)
  have c: "ncols M = 3" by (simp add: M_def mput_def np_zeros_def)
  have cells: "cell M 0 0 = 3" "cell M 0 1 = 5" "cell M 0 2 = 5"
    by (simp_all add: M_def mput_def np_zeros_def)
  have rw: "row M 0 = [3, 5, 5]"
    by (simp add: M_def row_def mput_def np_zeros_def numeral_3_eq_3)
  have b: "best = [2, 1, 0]"
    unfolding best_def argsorted_scores_def insertion_argsort_def
    using r by (simp add: rw upt_rec [of 0])
  from top_ten_order [OF r ia, unfolded Let_def, folded best_def] ta
  have len: "length best = min 10 (ncols M)"
    and order: "\<forall>a b. a < b \<and> b < length best \<longrightarrow> cell M 0 (best ! b) \<le> cell M 0 (best ! a)"
    and ties: "\<forall>a b. a < b \<and> b < length best \<and> cell M 0 (best ! b) = cell M 0 (best ! a)
        \<longrightarrow> best ! b < best ! a"
    by blast+
  from len c have l3: "length best = 3" by simp
  have b01: "best ! 0 = 2" "best ! 1 = 1" "best ! 2 = 0" by (simp_all add: b)
  from ties [rule_format, of 0 1] l3 b01 cells have t: "best ! 1 < best ! 0" by simp
  from order [rule_format, of 1 2] l3 b01 have o: "cell M 0 0 \<le> cell M 0 1" by simp
  from r ia ta b cells t o show ?thesis
    unfolding best_def M_def by simp
qed

text \<open>
  C8 as stated fails on a tie. numpy sorts a row of two entries by insertion, which leaves
  equal scores in ascending order of index; in the row \<open>[1, 1]\<close> the list is then
  \<open>[1, 0]\<close>, the higher index first, where a stable descending sort gives \<open>[0, 1]\<close>.
\<close>

theorem equal_scores_descending_index:
  "argsorted_scores insertion_argsort (mput (mput (np_zeros 1 2) 0 0 1) 0 1 1) = [[1, 0]]
   \<and> cell (mput (mput (np_zeros 1 2) 0 0 1) 0 1 1) 0 0
     = cell (mput (mput (np_zeros 1 2) 0 0 1) 0 1 1) 0 1"
  by (simp add: argsorted_scores_def insertion_argsort_def row_def mput_def np_zeros_def
      upt_rec [of 0])

section \<open>Properties of \<^verbatim>\<open>GloVe.fit\<close>\<close>

lemma glove_pass_shapes:
  assumes "keeps_shapes E"
    and "glove_pass E cw xw cs ls (m, buf) = Inr (m', buf')"
  shows "params_shape (fst m') = params_shape (fst m)"
  using assms(2)
proof (induction ls arbitrary: m buf)
  case Nil
  then show ?case by simp
next
  case (Cons l ls)
  obtain m1 v where st: "step E m (cw ! l) (xw ! l) (cs ! l) = (m1, v)"
    by (cases "step E m (cw ! l) (xw ! l) (cs ! l)")
  from Cons.prems st have "glove_pass E cw xw cs ls (m1, buf[l := v]) = Inr (m', buf')"
    by (simp split: if_splits)
  from Cons.IH [OF this] have "params_shape (fst m') = params_shape (fst m1)" .
  moreover have "params_shape (fst m1) = params_shape (fst m)"
    using assms(1) st by (metis keeps_shapes_def fst_conv)
  ultimately show ?case by simp
qed

lemma glove_epochs_shapes:
  assumes "keeps_shapes E"
    and "glove_epochs E cw xw cs n ((m, buf), rep) = Inr ((m', buf'), rep')"
  shows "params_shape (fst m') = params_shape (fst m)"
  using assms(2)
proof (induction n arbitrary: m buf rep)
  case 0
  then show ?case by simp
next
  case (Suc n)
  from Suc.prems obtain m1 buf1 q where
    p: "glove_pass E cw xw cs [0..<length cw] (m, buf) = Inr (m1, buf1)"
    and r: "glove_epochs E cw xw cs n ((m1, buf1), rep @ [q]) = Inr ((m', buf'), rep')"
    by (auto simp: ebind_Inr_iff)
  from Suc.IH [OF r] glove_pass_shapes [OF assms(1) p] show ?case by simp
qed

lemma fit_glove_shapes:
  assumes "keeps_shapes E"
    and "fit_glove E cw xw counts p n lr xmax a nt = Inr (p', rep)"
  shows "params_shape p' = params_shape p"
proof -
  from assms(2) obtain cs m buf where
    "glove_epochs E cw xw cs (nat n) (((p, new_model E lr xmax a nt),
        replicate (length cw) 0), []) = Inr ((m, buf), rep)" and "p' = fst m"
    by (auto simp: fit_glove_def ebind_Inr_iff split: pydata.splits)
  with glove_epochs_shapes [OF assms(1)] show ?thesis by fastforce
qed

lemma train_shapes:
  assumes "keeps_shapes E" and "train E self X p n nt = Inr (p', rep)"
  shows "params_shape p' = params_shape p"
proof -
  from assms(2) obtain cw xw cs where
    "fit_glove E cw xw cs p n (learning_rate self) (x_max self) (GloVe_alpha self) nt
       = Inr (p', rep)"
    by (auto simp: train_def ebind_Inr_iff)
  then show ?thesis by (rule fit_glove_shapes [OF assms(1)])
qed

lemma train_self [simp]:
  "train E (self\<lparr>GloVe_W := w, bias := b\<rparr>) X p n nt = train E self X p n nt"
  by (simp add: train_def)

lemma params_shape_allocate:
  "params_shape (allocate E self shape0 shape1) =
     ((shape0, num_components self), shape0, (shape1, num_components self), shape0)"
  by (simp add: params_shape_def allocate_def Let_def uniform2_def uniform1_def)

lemma broadcast_dim_None: "broadcast_dim a b = None \<longleftrightarrow> a \<noteq> b \<and> a \<noteq> 1 \<and> b \<noteq> 1"
  by (simp add: broadcast_dim_def)

lemma np_add_error:
  "ncols A = ncols B \<Longrightarrow>
   np_add A B = (if nrows A = nrows B \<or> nrows A = 1 \<or> nrows B = 1
      then Inr \<lparr>nrows = (if nrows A = 1 then nrows B else nrows A), ncols = ncols A,
             cell = (\<lambda>i j. cell A (if nrows A = 1 then 0 else i) (if ncols A = 1 then 0 else j)
                          + cell B (if nrows B = 1 then 0 else i) (if ncols B = 1 then 0 else j))\<rparr>
      else Inl ValueError)"
  by (auto simp: np_add_def broadcast_dim_def)

lemma fit_from_allocation_outcome:
  assumes "keeps_shapes E" and "X_shape X = Inr (shape0, shape1)"
  shows "snd (fit_from_allocation E resolve self X n t) =
     (case train E self X (allocate E self shape0 shape1) n (resolve (cpucount E) t) of
        Inl e \<Rightarrow> Some e
      | Inr pr \<Rightarrow> if shape0 = shape1 \<or> shape0 = 1 \<or> shape1 = 1 then None
                  else Some ValueError)"
proof (cases "train E self X (allocate E self shape0 shape1) n (resolve (cpucount E) t)")
  case (Inl e)
  then show ?thesis using assms(2) by (simp add: fit_from_allocation_def Let_def)
next
  case (Inr pr)
  obtain p rep where pr: "pr = (p, rep)" by (cases pr)
  have "params_shape p
      = ((shape0, num_components self), shape0, (shape1, num_components self), shape0)"
    using train_shapes [OF assms(1) Inr [unfolded pr]] by (simp add: params_shape_allocate)
  then have sh: "nrows (central_W p) = shape0" "nrows (context_W p) = shape1"
    "ncols (central_W p) = ncols (context_W p)"
    by (simp_all add: params_shape_def)
  show ?thesis
    using assms(2) Inr pr sh
    by (simp add: fit_from_allocation_def Let_def np_add_error)
qed

text \<open>
  C10, as the code has it. For an \<open>X\<close> of shape \<open>(shape0, shape1)\<close> the context bias is
  allocated with \<open>shape0\<close> entries, while the context matrix has \<open>shape1\<close> rows and the
  central matrix \<open>shape0\<close>. \<^verbatim>\<open>fit\<close> returns without an exception only if the two matrices
  can be added: \<open>shape0 = shape1\<close>, or one of the two is 1 and numpy broadcasts the single
  row. When training has returned, the last statement raises ValueError for every other
  shape.
\<close>

theorem averaging_needs_broadcastable_shapes:
  assumes "keeps_shapes E" and "X_shape X = Inr (shape0, shape1)"
  shows "length (context_bias (allocate E self shape0 shape1)) = shape0
    \<and> nrows (context_W (allocate E self shape0 shape1)) = shape1
    \<and> nrows (central_W (allocate E self shape0 shape1)) = shape0
    \<and> (snd (fastmf_fit E self X n t) = None \<longrightarrow> shape0 = shape1 \<or> shape0 = 1 \<or> shape1 = 1)
    \<and> (snd (cymf_fit E self X n t) = None \<longrightarrow> shape0 = shape1 \<or> shape0 = 1 \<or> shape1 = 1)
    \<and> (\<forall>pr. train E self X (allocate E self shape0 shape1) n
               (fastmf_num_threads (cpucount E) t) = Inr pr \<longrightarrow>
          snd (fastmf_fit E self X n t)
            = (if shape0 = shape1 \<or> shape0 = 1 \<or> shape1 = 1 then None else Some ValueError))
    \<and> (\<forall>pr. isinstance_sparse X \<and> train E self X (allocate E self shape0 shape1) n
               (cymf_num_threads (cpucount E) t) = Inr pr \<longrightarrow>
          snd (cymf_fit E self X n t)
            = (if shape0 = shape1 \<or> shape0 = 1 \<or> shape1 = 1 then None else Some ValueError))"
proof -
  have alloc: "length (context_bias (allocate E self shape0 shape1)) = shape0"
    "nrows (context_W (allocate E self shape0 shape1)) = shape1"
    "nrows (central_W (allocate E self shape0 shape1)) = shape0"
    using params_shape_allocate [of E self shape0 shape1] by (simp_all add: params_shape_def)
  note out = fit_from_allocation_outcome [OF assms]
  have f: "snd (fastmf_fit E self X n t) = None \<longrightarrow> shape0 = shape1 \<or> shape0 = 1 \<or> shape1 = 1"
    using out [of fastmf_num_threads self n t]
    by (auto simp: fastmf_fit_def split: sum.splits if_splits)
  have c: "snd (cymf_fit E self X n t) = None \<longrightarrow> shape0 = shape1 \<or> shape0 = 1 \<or> shape1 = 1"
    using out [of cymf_num_threads self n t]
    by (auto simp: cymf_fit_def split: sum.splits if_splits)
  have f': "snd (fastmf_fit E self X n t)
            = (if shape0 = shape1 \<or> shape0 = 1 \<or> shape1 = 1 then None else Some ValueError)"
    if "train E self X (allocate E self shape0 shape1) n
               (fastmf_num_threads (cpucount E) t) = Inr pr" for pr
    using out [of fastmf_num_threads self n t] that by (simp add: fastmf_fit_def)
  have np: "X \<noteq> PyNone" using assms(2) by (auto simp: X_shape_def)
  have c': "snd (cymf_fit E self X n t)
            = (if shape0 = shape1 \<or> shape0 = 1 \<or> shape1 = 1 then None else Some ValueError)"
    if "isinstance_sparse X" "train E self X (allocate E self shape0 shape1) n
               (cymf_num_threads (cpucount E) t) = Inr pr" for pr
    using out [of cymf_num_threads self n t] that np by (simp add: cymf_fit_def)
  show ?thesis using alloc f c f' c' by blast
qed

theorem averaging_needs_broadcastable_shapes_witness:
  "keeps_shapes plain_env
   \<and> X_shape (sparse csr_matrix float64 (mput (np_zeros 2 3) 0 1 1)) = Inr (2, 3)
   \<and> snd (cymf_fit plain_env (new_GloVe 1) (sparse csr_matrix float64 (mput (np_zeros 2 3) 0 1 1)) 1 1)
       \<noteq> None
   \<and> length (context_bias (allocate plain_env (new_GloVe 1) 2 3)) = 2"
proof -
  have k: "keeps_shapes plain_env"
    by (simp add: keeps_shapes_def plain_env_def)
  have s: "X_shape (sparse csr_matrix float64 (mput (np_zeros 2 3) 0 1 1)) = Inr (2, 3)"
    by (simp add: X_shape_def mput_def np_zeros_def)
  show ?thesis
    using k s averaging_needs_broadcastable_shapes [OF k s, of "new_GloVe 1" 1 1]
    by auto
qed

text \<open>
  C10 as stated fails on a matrix with a single column: for the 2 by 1 matrix with both
  entries 1, in the csr format, \<^verbatim>\<open>fit\<close> returns without an exception (the single row of the
  context matrix is broadcast in the last statement), and the matrix is not square.
\<close>

theorem fit_on_a_column_matrix:
  "snd (cymf_fit plain_env (new_GloVe 1)
          (sparse csr_matrix float64 (mput (mput (np_zeros 2 1) 0 0 1) 1 0 1)) 1 1) = None
   \<and> nrows (mput (mput (np_zeros 2 1) 0 0 1) 1 0 1)
     \<noteq> ncols (mput (mput (np_zeros 2 1) 0 0 1) 1 0 1)"
proof -
  define M where "M = mput (mput (np_zeros 2 1) 0 0 1) 1 0 1"
  have sh: "nrows M = 2" "ncols M = 1"
    by (simp_all add: M_def mput_def np_zeros_def)
  have nz: "nonzero M = [(0, 0), (Suc 0, 0)]"
    unfolding nonzero_def sh
    by (simp add: M_def mput_def np_zeros_def upt_rec [of 0] numeral_2_eq_2)
  have cells: "cell M 0 0 = 1" "cell M (Suc 0) 0 = 1"
    by (simp_all add: M_def mput_def np_zeros_def)
  have sf: "shuffle plain_env = Inr"
    by (simp add: plain_env_def)
  have rep: "replicate 2 (0::real) = [0, 0]" by (simp add: numeral_2_eq_2)
  have ep: "glove_epochs plain_env [0, Suc 0] [0, 0] [1, 1] (Suc 0) ((m, [0, 0]), [])
      = Inr ((m, [0, 0]), [0])" for m
    by (simp add: plain_env_def mean_loss_def upt_rec [of 0])
  have fg: "fit_glove plain_env [0, Suc 0] [0, 0] (DoubleArray [1, 1]) p 1 lr xm al nt
      = Inr (p, [0])" for p lr xm al nt
    unfolding fit_glove_def using ep by (simp add: rep)
  have tr: "train plain_env self (sparse csr_matrix float64 M) p 1 nt = Inr (p, [0])" for self p nt
    unfolding train_def X_nonzero_def X_data_def
    by (simp add: nz cells sf fg)
  have al: "nrows (central_W (allocate plain_env (new_GloVe 1) 2 1)) = 2"
    "nrows (context_W (allocate plain_env (new_GloVe 1) 2 1)) = 1"
    "ncols (central_W (allocate plain_env (new_GloVe 1) 2 1)) = 1"
    "ncols (context_W (allocate plain_env (new_GloVe 1) 2 1)) = 1"
    by (simp_all add: allocate_def Let_def uniform2_def new_GloVe_def)
  have add: "\<exists>both. np_add (central_W (allocate plain_env (new_GloVe 1) 2 1))
      (context_W (allocate plain_env (new_GloVe 1) 2 1)) = Inr both"
    unfolding np_add_def al by (simp add: broadcast_dim_def)
  have "snd (cymf_fit plain_env (new_GloVe 1) (sparse csr_matrix float64 M) 1 1) = None"
    unfolding cymf_fit_def fit_from_allocation_def X_shape_def
    using add by (auto simp: isinstance_sparse_def sh Let_def tr)
  then show ?thesis
    using sh by (simp add: M_def)
qed

text \<open>
  C1. \<^verbatim>\<open>cymf\<close>'s \<^verbatim>\<open>fit\<close> refuses a dense array with TypeError and None with ValueError
  and leaves the object as it was. \<^verbatim>\<open>fastmf\<close>'s \<^verbatim>\<open>fit\<close> has no such check: called with a
  dense array it has set \<^verbatim>\<open>self.W\<close> and \<^verbatim>\<open>self.bias\<close> by the time it returns or raises.
\<close>

theorem dense_array_reaches_allocation:
  "GloVe_W (fst (fastmf_fit E self (ndarray m) n t)) \<noteq> None
   \<and> bias (fst (fastmf_fit E self (ndarray m) n t)) \<noteq> None
   \<and> cymf_fit E self (ndarray m) n t = (self, Some TypeError)
   \<and> cymf_fit E self PyNone n t = (self, Some ValueError)"
  by (auto simp: fastmf_fit_def cymf_fit_def isinstance_sparse_def fit_from_allocation_def
      X_shape_def Let_def split: sum.splits prod.splits)

text \<open>
  C6, as the code has it. \<^verbatim>\<open>cymf\<close>'s \<^verbatim>\<open>fit\<close> resolves a non-positive \<^verbatim>\<open>num_threads\<close> to the
  host's core count and uses a positive one as given. \<^verbatim>\<open>fastmf\<close>'s \<^verbatim>\<open>fit\<close> and \<^verbatim>\<open>BPR.fit\<close>
  cap a positive value at the core count.
\<close>

theorem num_threads_resolution:
  "(num_threads \<le> 0 \<longrightarrow> cymf_num_threads cpus num_threads = cpus)
   \<and> (0 < num_threads \<longrightarrow> cymf_num_threads cpus num_threads = num_threads)
   \<and> (0 < num_threads \<longrightarrow>
        fastmf_num_threads cpus num_threads
          = (if num_threads \<le> cpus then num_threads else cpus))"
  by (simp add: cymf_num_threads_def fastmf_num_threads_def)

theorem num_threads_resolution_witness:
  "(0::int) \<le> 0 \<and> cymf_num_threads 8 0 = 8 \<and> (0::int) < 3 \<and> cymf_num_threads 8 3 = 3
   \<and> fastmf_num_threads 8 3 = 3"
  using num_threads_resolution [of 0 8] num_threads_resolution [of 3 8] by simp

text \<open>
  C6 as stated fails in \<^verbatim>\<open>fastmf\<close>'s \<^verbatim>\<open>fit\<close> and in \<^verbatim>\<open>BPR.fit\<close>: on a host with 8 cores, 16
  threads asked for resolve to 8.
\<close>

theorem positive_num_threads_capped: "fastmf_num_threads 8 16 = 8"
  by (simp add: fastmf_num_threads_def)

lemma glove_epochs_no_samples:
  "glove_epochs E [] xw cs (Suc n) st = Inl ZeroDivisionError"
  by (cases st) (simp add: mean_loss_def split: prod.splits)

lemma fit_glove_no_samples:
  assumes "0 < num_iterations"
  shows "fit_glove E [] xw (DoubleArray cs) p num_iterations lr xmax a nt
         = Inl ZeroDivisionError"
proof -
  from assms obtain k where "nat num_iterations = Suc k"
    by (metis Suc_pred' zero_less_nat_eq)
  then show ?thesis by (simp add: fit_glove_def mean_loss_def)
qed

section \<open>Properties of an epoch without samples\<close>

text \<open>
  C5, as the code has it. Without training samples the sample loop of an epoch does
  nothing, but the mean loss is taken by an unguarded division by the number of samples:
  the first epoch raises ZeroDivisionError, in \<^verbatim>\<open>fit_bpr\<close> (whatever the validation set) and
  in \<^verbatim>\<open>fit_glove\<close>, so that a run of at least one epoch reports no loss.
\<close>

theorem no_samples_division:
  assumes "0 < num_iterations"
  shows "run_pass True [] positives negatives it [0..<0] (s, buf) = Inr (s, buf)
    \<and> fit_bpr rng asort [] positives X None X_test w h num_iterations lr wd
        = Inl ZeroDivisionError
    \<and> isl (fit_bpr rng asort [] positives X valid X_test w h num_iterations lr wd)
    \<and> glove_pass E [] xw cs [0..<0] (m, gbuf) = Inr (m, gbuf)
    \<and> fit_glove E [] xw (DoubleArray cs) p num_iterations glr xmax a nt
        = Inl ZeroDivisionError"
proof -
  have n: "[0..<nat num_iterations] = 0 # [1..<nat num_iterations]"
    using assms by (simp add: upt_first)
  have "isl (fit_bpr rng asort [] positives X valid X_test w h num_iterations lr wd)"
    using assms
    by (auto simp: fit_bpr_def Let_def n epoch_no_samples ebind_def
        split: option.splits sum.splits)
  then show ?thesis
    using assms fit_bpr_no_samples [OF assms] fit_glove_no_samples [OF assms] by simp
qed

theorem no_samples_division_witness:
  "(0::int) < 2
   \<and> fit_glove plain_env [] [] (DoubleArray []) (allocate plain_env (new_GloVe 1) 2 2)
        2 1 1 1 1 = Inl ZeroDivisionError"
  using no_samples_division [where num_iterations = 2 and E = plain_env and xw = "[]"
      and cs = "[]" and p = "allocate plain_env (new_GloVe 1) 2 2" and glr = 1 and xmax = 1
      and a = 1 and nt = 1]
  by simp

text \<open>
  C5 as stated fails: for a matrix without nonzero entries, \<^verbatim>\<open>fit_bpr\<close> raises
  ZeroDivisionError in its first epoch instead of reporting the loss 0.
\<close>

theorem no_samples_raise:
  "nonzero (np_zeros 1 1) = []
   \<and> fit_bpr first_draw insertion_argsort [] [] (np_zeros 1 1) None None (np_zeros 1 1) (np_zeros 1 1)
       1 1 1 = Inl ZeroDivisionError"
  by (simp add: fit_bpr_no_samples nonzero_def np_zeros_def)

end
